theory Spec2Isabelle
  imports Main "HOL-Library.Word"
begin

unbundle bit_operations_syntax

section \<open>Data model of \<open>internal/processing/workers/util.go\<close>\<close>

text \<open>
  The worker utilities operate on the records of \<open>gtsmodel\<close>. Only the fields that
  \<open>util.go\<close> reads or writes are modelled. A Go pointer is an \<open>option\<close>
  (\<open>None\<close> is \<open>nil\<close>), a Go \<open>int\<close> is a 64-bit word read as two's complement
  (its width on the 64-bit platforms), a \<open>time.Time\<close> is an abstract instant. Field names carry the name of their struct,
  since several structs share \<open>ID\<close>, \<open>URI\<close>, \<open>AccountID\<close>.
\<close>

type_synonym go_int = "64 word"

type_synonym instant = int

record AccountStats =
  Stats_AccountID :: string
  Stats_FollowersCount :: "go_int option"
  Stats_FollowingCount :: "go_int option"
  Stats_FollowRequestsCount :: "go_int option"
  Stats_StatusesCount :: "go_int option"
  Stats_LastStatusAt :: instant

record Account =
  Account_ID :: string
  Account_URI :: string
  Account_Username :: string
  Account_Stats :: "AccountStats option"

record Status =
  Status_ID :: string
  Status_URI :: string
  Status_CreatedAt :: instant
  Status_AccountID :: string
  Status_Account :: "Account option"
  Status_AttachmentIDs :: "string list"
  Status_MentionIDs :: "string list"
  Status_PollID :: string
  Status_InReplyToAccountID :: string
  Status_InReplyToAccount :: "Account option"
  Status_BoostOfAccountID :: string
  Status_BoostOfAccount :: "Account option"
  Status_PendingApproval :: "bool option"
  Status_PreApproved :: bool
  Status_ApprovedByURI :: string

record StatusFave =
  Fave_ID :: string
  Fave_URI :: string
  Fave_AccountID :: string
  Fave_Account :: "Account option"
  Fave_TargetAccountID :: string
  Fave_TargetAccount :: "Account option"
  Fave_PendingApproval :: "bool option"
  Fave_PreApproved :: bool
  Fave_ApprovedByURI :: string

record Follow =
  Follow_ID :: string
  Follow_AccountID :: string
  Follow_Account :: "Account option"
  Follow_TargetAccountID :: string
  Follow_ShowReblogs :: "bool option"
  Follow_Notify :: "bool option"

text \<open>\<open>apimodel.AccountFollowRequest\<close>, as \<open>redirectFollowers\<close> fills it.\<close>

record AccountFollowRequest =
  Request_ID :: string
  Request_Reblogs :: "bool option"
  Request_Notify :: "bool option"

datatype InteractionType = InteractionLike | InteractionReply | InteractionAnnounce

record InteractionApproval =
  Approval_ID :: string
  Approval_AccountID :: string
  Approval_Account :: "Account option"
  Approval_InteractingAccountID :: string
  Approval_InteractingAccount :: "Account option"
  Approval_InteractionURI :: string
  Approval_InteractionType :: InteractionType
  Approval_URI :: string

section \<open>Errors\<close>

text \<open>
  A Go \<open>error\<close> value. \<open>ErrNoEntries\<close> is the sentinel \<open>db.ErrNoEntries\<close>;
  \<open>ErrOther\<close> is any other failure of a collaborator, with its message;
  \<open>Wrapped fmt err\<close> is an error built from the format string \<open>fmt\<close> whose
  \<open>%w\<close> verb wraps \<open>err\<close>; \<open>MultiErr\<close> is the combined error of an
  aggregator, holding the failures appended to it in order.
\<close>

datatype error =
    ErrNoEntries
  | ErrOther string
  | Wrapped string error
  | MultiErr "error list"

text \<open>
  \<open>errors.Is(err, db.ErrNoEntries)\<close> of the Go standard library: the error is the
  sentinel itself, or wraps (through \<open>%w\<close>) an error that is.
\<close>

fun errors_Is_ErrNoEntries :: "error \<Rightarrow> bool" where
  "errors_Is_ErrNoEntries ErrNoEntries = True"
| "errors_Is_ErrNoEntries (Wrapped fmt err) = errors_Is_ErrNoEntries err"
| "errors_Is_ErrNoEntries (ErrOther msg) = False"
| "errors_Is_ErrNoEntries (MultiErr errs) = False"

text \<open>
  Modelled from the spec: the type \<open>gtserror.MultiError\<close> is not among the sources.
  The spec describes the error aggregator as an accumulator value, an ordered
  sequence of error records that collects zero or more failures of independent steps.
\<close>

type_synonym MultiError = "error list"

text \<open>
  Modelled from the spec: \<open>MultiError.Appendf\<close> is not among the sources. By the
  spec, the failure of a step is appended to the aggregator with a human-readable
  annotation of which step failed; the annotation is the format string, whose
  \<open>%w\<close> wraps the failure.
\<close>

definition Appendf :: "MultiError \<Rightarrow> string \<Rightarrow> error \<Rightarrow> MultiError" where
  "Appendf errs fmt err = errs @ [Wrapped fmt err]"

text \<open>
  Modelled from the spec: \<open>MultiError.Combine\<close> is not among the sources. By the
  spec, the terminal combine step gives success (\<open>nil\<close>) if and only if zero
  failures were appended, and otherwise one combined error that enumerates every
  appended failure.
\<close>

definition Combine :: "MultiError \<Rightarrow> error option" where
  "Combine errs = (if errs = [] then None else Some (MultiErr errs))"

text \<open>
  Modelled from the spec: \<open>gtserror.Newf\<close> is not among the sources. By the spec, a
  failure is reported with the failing operation named; the name is the format
  string, whose \<open>%w\<close> wraps the failure.
\<close>

definition Newf :: "string \<Rightarrow> error \<Rightarrow> error" where
  "Newf fmt err = Wrapped fmt err"

section \<open>Collaborators\<close>

text \<open>
  Every call that \<open>util.go\<close> makes into the store, the media processor, the account
  processor, the timeline surface and the scheduler, with its arguments (the
  \<open>context\<close> apart).
\<close>

datatype call =
    MediaDelete string
  | MediaUnattach "Account option" string
  | DeleteMentionByID string
  | DeleteNotificationsForStatus string
  | DeleteStatusBookmarksForStatus string
  | DeleteStatusFavesForStatus string
  | DeletePollByID string
  | DeletePollVotes string
  | SchedulerCancel string
  | GetStatusBoosts string
  | DeleteStatusFromTimelines string
  | DeleteStatusByID string
  | DeleteStatusFromConversations string
  | GetAccountLocalFollowers string
  | GetAccountByID string
  | FollowCreate Account AccountFollowRequest
  | FollowRemove Account string
  | PopulateAccountStats Account
  | UpdateAccountStats AccountStats "string list"
  | PutInteractionApproval InteractionApproval
  | UpdateStatusFave StatusFave "string list"
  | UpdateStatus Status "string list"

text \<open>
  An event is a call that was made, with the error it returned (\<open>None\<close> is Go's
  \<open>nil\<close> error). \<open>Scheduler.Cancel\<close> returns a bool and no error, and its
  event holds \<open>None\<close>. The history of a run is the list of its events, oldest
  first.
\<close>

type_synonym event = "call \<times> error option"

text \<open>
  The collaborators are parameters of the model. Each answers a call from the history
  so far, so that an answer may depend on every earlier call and on its position:
  any pattern of failures is some value of this record. \<open>respond\<close> answers the calls
  of which \<open>util.go\<close> uses only the error; a call that returns a value with its error
  answers \<open>Inl err\<close> or \<open>Inr value\<close>, the value being \<open>nil\<close> on an error, as the
  store returns it. \<open>scheduler_Cancel\<close> returns a bool, \<open>id_NewULID\<close> a fresh
  identifier; \<open>uris_GenerateURIForAccept\<close> is the pure function of package
  \<open>uris\<close>, which is not among the sources.
\<close>

record collab =
  respond :: "event list \<Rightarrow> call \<Rightarrow> error option"
  db_GetStatusBoosts :: "event list \<Rightarrow> string \<Rightarrow> error + Status list"
  db_GetAccountLocalFollowers :: "event list \<Rightarrow> string \<Rightarrow> error + Follow list"
  db_GetAccountByID :: "event list \<Rightarrow> string \<Rightarrow> error + Account"
  db_PopulateAccountStats :: "event list \<Rightarrow> Account \<Rightarrow> error + Account"
  scheduler_Cancel :: "event list \<Rightarrow> string \<Rightarrow> bool"
  id_NewULID :: "event list \<Rightarrow> string"
  uris_GenerateURIForAccept :: "string \<Rightarrow> string \<Rightarrow> string"

section \<open>\<open>wipeStatus\<close>: the deletion cascade\<close>

text \<open>
  The state of a run of \<open>wipeStatus\<close>: the history, and the local \<open>errs\<close>.
\<close>

record wipe_state =
  ws_trace :: "event list"
  ws_errs :: MultiError

text \<open>
  The statement \<open>if err := call; err != nil { errs.Appendf(fmt, err) }\<close>, which
  \<open>wipeStatus\<close> repeats for every step it reports.
\<close>

definition attempt :: "collab \<Rightarrow> call \<Rightarrow> string \<Rightarrow> wipe_state \<Rightarrow> wipe_state" where
  "attempt env c fmt st =
     (case respond env (ws_trace st) c of
        None \<Rightarrow> st\<lparr>ws_trace := ws_trace st @ [(c, None)]\<rparr>
      | Some err \<Rightarrow>
          \<lparr>ws_trace = ws_trace st @ [(c, Some err)],
           ws_errs = Appendf (ws_errs st) fmt err\<rparr>)"

text \<open>
  The body of \<open>if pollID := statusToDelete.PollID; pollID != ""\<close>. The result of
  \<open>Scheduler.Cancel\<close> is assigned to the blank identifier.
\<close>

definition wipe_poll :: "collab \<Rightarrow> string \<Rightarrow> wipe_state \<Rightarrow> wipe_state" where
  "wipe_poll env pollID st =
     (let st1 = attempt env (DeletePollByID pollID) ''error deleting status poll: %w'' st;
          st2 = attempt env (DeletePollVotes pollID) ''error deleting status poll votes: %w'' st1;
          cancelled = scheduler_Cancel env (ws_trace st2) pollID
      in st2\<lparr>ws_trace := ws_trace st2 @ [(SchedulerCancel pollID, None)]\<rparr>)"

text \<open>
  \<open>boosts, err := GetStatusBoosts(...)\<close> with the \<open>Appendf\<close> that follows it: the
  boosts to loop over and the state after the call.
\<close>

definition wipe_fetch_boosts :: "collab \<Rightarrow> string \<Rightarrow> wipe_state \<Rightarrow> Status list \<times> wipe_state" where
  "wipe_fetch_boosts env statusID st =
     (case db_GetStatusBoosts env (ws_trace st) statusID of
        Inl err \<Rightarrow>
          ([], \<lparr>ws_trace = ws_trace st @ [(GetStatusBoosts statusID, Some err)],
                ws_errs = Appendf (ws_errs st) ''error fetching status boosts: %w'' err\<rparr>)
      | Inr boosts \<Rightarrow>
          (boosts, st\<lparr>ws_trace := ws_trace st @ [(GetStatusBoosts statusID, None)]\<rparr>))"

text \<open>The body of \<open>for _, boost := range boosts\<close>.\<close>

definition wipe_boost :: "collab \<Rightarrow> Status \<Rightarrow> wipe_state \<Rightarrow> wipe_state" where
  "wipe_boost env boost st =
     attempt env (DeleteStatusByID (Status_ID boost)) ''error deleting boost: %w''
       (attempt env (DeleteStatusFromTimelines (Status_ID boost))
          ''error deleting boost from timelines: %w'' st)"

definition wipeStatus :: "collab \<Rightarrow> event list \<Rightarrow> Status \<Rightarrow> bool \<Rightarrow> event list \<times> error option" where
  "wipeStatus env h statusToDelete deleteAttachments =
     (let st0 = \<lparr>ws_trace = h, ws_errs = []\<rparr>;
          st1 = (if deleteAttachments
                 then fold (\<lambda>id. attempt env (MediaDelete id) ''error deleting media: %w'')
                        (Status_AttachmentIDs statusToDelete) st0
                 else fold (\<lambda>id. attempt env (MediaUnattach (Status_Account statusToDelete) id)
                                   ''error unattaching media: %w'')
                        (Status_AttachmentIDs statusToDelete) st0);
          st2 = fold (\<lambda>id. attempt env (DeleteMentionByID id) ''error deleting status mention: %w'')
                  (Status_MentionIDs statusToDelete) st1;
          st3 = attempt env (DeleteNotificationsForStatus (Status_ID statusToDelete))
                  ''error deleting status notifications: %w'' st2;
          st4 = attempt env (DeleteStatusBookmarksForStatus (Status_ID statusToDelete))
                  ''error deleting status bookmarks: %w'' st3;
          st5 = attempt env (DeleteStatusFavesForStatus (Status_ID statusToDelete))
                  ''error deleting status faves: %w'' st4;
          st6 = (if Status_PollID statusToDelete \<noteq> []
                 then wipe_poll env (Status_PollID statusToDelete) st5
                 else st5);
          (boosts, st7) = wipe_fetch_boosts env (Status_ID statusToDelete) st6;
          st8 = fold (wipe_boost env) boosts st7;
          st9 = attempt env (DeleteStatusFromTimelines (Status_ID statusToDelete))
                  ''error deleting status from timelines: %w'' st8;
          st10 = attempt env (DeleteStatusFromConversations (Status_ID statusToDelete))
                   ''error deleting status from conversations: %w'' st9;
          st11 = attempt env (DeleteStatusByID (Status_ID statusToDelete))
                   ''error deleting status: %w'' st10
      in (ws_trace st11, Combine (ws_errs st11)))"

section \<open>\<open>redirectFollowers\<close>: the follower migration\<close>

text \<open>
  The calls to \<open>log.Errorf\<close> before each \<open>return false\<close> write to the log only and
  are left out. A result \<open>(h, False)\<close> of a loop body is \<open>return false\<close>;
  \<open>(h, True)\<close> goes on to the next follower.
\<close>

text \<open>
  The last statement of the loop body: \<open>FollowRemove\<close> of the old follow, and
  \<open>return false\<close> on its error.
\<close>

definition redirect_remove :: "collab \<Rightarrow> call \<Rightarrow> event list \<Rightarrow> event list \<times> bool" where
  "redirect_remove env remove h =
     (case respond env h remove of
        Some err \<Rightarrow> (h @ [(remove, Some err)], False)
      | None \<Rightarrow> (h @ [(remove, None)], True))"

text \<open>The body of \<open>for _, follow := range followers\<close>.\<close>

definition redirect_follower :: "collab \<Rightarrow> Account \<Rightarrow> Follow \<Rightarrow> event list \<Rightarrow> event list \<times> bool" where
  "redirect_follower env targetAcct follow h =
     (case db_GetAccountByID env h (Follow_AccountID follow) of
        Inl err \<Rightarrow> (h @ [(GetAccountByID (Follow_AccountID follow), Some err)], False)
      | Inr account \<Rightarrow>
          (let h1 = h @ [(GetAccountByID (Follow_AccountID follow), None)];
               create = FollowCreate account
                  \<lparr>Request_ID = Account_ID targetAcct,
                   Request_Reblogs = Follow_ShowReblogs follow,
                   Request_Notify = Follow_Notify follow\<rparr>;
               remove = FollowRemove account (Follow_TargetAccountID follow)
           in if Follow_AccountID follow \<noteq> Account_ID targetAcct
              then (case respond env h1 create of
                      Some err \<Rightarrow> (h1 @ [(create, Some err)], False)
                    | None \<Rightarrow> redirect_remove env remove (h1 @ [(create, None)]))
              else redirect_remove env remove h1))"

fun redirect_loop :: "collab \<Rightarrow> Account \<Rightarrow> Follow list \<Rightarrow> event list \<Rightarrow> event list \<times> bool" where
  "redirect_loop env targetAcct [] h = (h, True)"
| "redirect_loop env targetAcct (follow # followers) h =
     (case redirect_follower env targetAcct follow h of
        (h', False) \<Rightarrow> (h', False)
      | (h', True) \<Rightarrow> redirect_loop env targetAcct followers h')"

definition redirectFollowers :: "collab \<Rightarrow> event list \<Rightarrow> Account \<Rightarrow> Account \<Rightarrow> event list \<times> bool" where
  "redirectFollowers env h originAcct targetAcct =
     (case db_GetAccountLocalFollowers env h (Account_ID originAcct) of
        Inl err \<Rightarrow>
          (let h1 = h @ [(GetAccountLocalFollowers (Account_ID originAcct), Some err)]
           in if \<not> errors_Is_ErrNoEntries err
              then (h1, False)
              else redirect_loop env targetAcct [] h1)
      | Inr followers \<Rightarrow>
          redirect_loop env targetAcct followers
            (h @ [(GetAccountLocalFollowers (Account_ID originAcct), None)]))"

section \<open>The account statistics counters\<close>

text \<open>
  What a call of a Go function does: it panics (here: on a nil pointer
  dereference), or it returns.
\<close>

datatype 'a outcome = Panic | Return 'a

text \<open>
  The counter functions take the lock of \<open>account.URI\<close> and release it on return;
  the lock orders concurrent calls and has no effect in a sequential run, so it is
  left out. Each function returns the history, the account as it has been mutated in
  place, and what the function returned.
\<close>

text \<open>
  The last statement of every counter function: \<open>UpdateAccountStats\<close> of
  \<open>account.Stats\<close> with the named columns, \<open>Newf\<close> of its error, \<open>nil\<close> otherwise.
\<close>

definition update_stats ::
  "collab \<Rightarrow> event list \<Rightarrow> Account \<Rightarrow> AccountStats \<Rightarrow> string list \<Rightarrow>
   event list \<times> Account \<times> error option outcome" where
  "update_stats env h account stats columns =
     (let update = UpdateAccountStats stats columns;
          account' = account\<lparr>Account_Stats := Some stats\<rparr>
      in case respond env h update of
           Some err \<Rightarrow>
             (h @ [(update, Some err)], account',
              Return (Some (Newf ''db error updating account stats: %w'' err)))
         | None \<Rightarrow> (h @ [(update, None)], account', Return None))"

definition incrementStatusesCount ::
  "collab \<Rightarrow> event list \<Rightarrow> Account \<Rightarrow> Status \<Rightarrow> event list \<times> Account \<times> error option outcome" where
  "incrementStatusesCount env h account status =
     (case db_PopulateAccountStats env h account of
        Inl err \<Rightarrow>
          (h @ [(PopulateAccountStats account, Some err)], account,
           Return (Some (Newf ''db error getting account stats: %w'' err)))
      | Inr account1 \<Rightarrow>
          (let h1 = h @ [(PopulateAccountStats account, None)]
           in case Account_Stats account1 of
                None \<Rightarrow> (h1, account1, Panic)
              | Some stats \<Rightarrow>
                  (case Stats_StatusesCount stats of
                     None \<Rightarrow> (h1, account1, Panic)
                   | Some n \<Rightarrow>
                       (let stats1 = stats\<lparr>Stats_StatusesCount := Some (n + 1)\<rparr>;
                            stats2 = stats1\<lparr>Stats_LastStatusAt := Status_CreatedAt status\<rparr>
                        in update_stats env h1 account1 stats2
                             [''statuses_count'', ''last_status_at'']))))"

definition decrementStatusesCount ::
  "collab \<Rightarrow> event list \<Rightarrow> Account \<Rightarrow> event list \<times> Account \<times> error option outcome" where
  "decrementStatusesCount env h account =
     (case db_PopulateAccountStats env h account of
        Inl err \<Rightarrow>
          (h @ [(PopulateAccountStats account, Some err)], account,
           Return (Some (Newf ''db error getting account stats: %w'' err)))
      | Inr account1 \<Rightarrow>
          (let h1 = h @ [(PopulateAccountStats account, None)]
           in case Account_Stats account1 of
                None \<Rightarrow> (h1, account1, Panic)
              | Some stats \<Rightarrow>
                  (case Stats_StatusesCount stats of
                     None \<Rightarrow> (h1, account1, Panic)
                   | Some n \<Rightarrow>
                       (let stats1 = stats\<lparr>Stats_StatusesCount := Some (n - 1)\<rparr>;
                            stats2 = (if n - 1 <s 0
                                      then stats1\<lparr>Stats_StatusesCount := Some 0\<rparr>
                                      else stats1)
                        in update_stats env h1 account1 stats2 [''statuses_count'']))))"

definition incrementFollowersCount ::
  "collab \<Rightarrow> event list \<Rightarrow> Account \<Rightarrow> event list \<times> Account \<times> error option outcome" where
  "incrementFollowersCount env h account =
     (case db_PopulateAccountStats env h account of
        Inl err \<Rightarrow>
          (h @ [(PopulateAccountStats account, Some err)], account,
           Return (Some (Newf ''db error getting account stats: %w'' err)))
      | Inr account1 \<Rightarrow>
          (let h1 = h @ [(PopulateAccountStats account, None)]
           in case Account_Stats account1 of
                None \<Rightarrow> (h1, account1, Panic)
              | Some stats \<Rightarrow>
                  (case Stats_FollowersCount stats of
                     None \<Rightarrow> (h1, account1, Panic)
                   | Some n \<Rightarrow>
                       update_stats env h1 account1
                         (stats\<lparr>Stats_FollowersCount := Some (n + 1)\<rparr>)
                         [''followers_count''])))"

definition decrementFollowersCount ::
  "collab \<Rightarrow> event list \<Rightarrow> Account \<Rightarrow> event list \<times> Account \<times> error option outcome" where
  "decrementFollowersCount env h account =
     (case db_PopulateAccountStats env h account of
        Inl err \<Rightarrow>
          (h @ [(PopulateAccountStats account, Some err)], account,
           Return (Some (Newf ''db error getting account stats: %w'' err)))
      | Inr account1 \<Rightarrow>
          (let h1 = h @ [(PopulateAccountStats account, None)]
           in case Account_Stats account1 of
                None \<Rightarrow> (h1, account1, Panic)
              | Some stats \<Rightarrow>
                  (case Stats_FollowersCount stats of
                     None \<Rightarrow> (h1, account1, Panic)
                   | Some n \<Rightarrow>
                       (let stats1 = stats\<lparr>Stats_FollowersCount := Some (n - 1)\<rparr>;
                            stats2 = (if n - 1 <s 0
                                      then stats1\<lparr>Stats_FollowersCount := Some 0\<rparr>
                                      else stats1)
                        in update_stats env h1 account1 stats2 [''followers_count'']))))"

definition incrementFollowingCount ::
  "collab \<Rightarrow> event list \<Rightarrow> Account \<Rightarrow> event list \<times> Account \<times> error option outcome" where
  "incrementFollowingCount env h account =
     (case db_PopulateAccountStats env h account of
        Inl err \<Rightarrow>
          (h @ [(PopulateAccountStats account, Some err)], account,
           Return (Some (Newf ''db error getting account stats: %w'' err)))
      | Inr account1 \<Rightarrow>
          (let h1 = h @ [(PopulateAccountStats account, None)]
           in case Account_Stats account1 of
                None \<Rightarrow> (h1, account1, Panic)
              | Some stats \<Rightarrow>
                  (case Stats_FollowingCount stats of
                     None \<Rightarrow> (h1, account1, Panic)
                   | Some n \<Rightarrow>
                       update_stats env h1 account1
                         (stats\<lparr>Stats_FollowingCount := Some (n + 1)\<rparr>)
                         [''following_count''])))"

definition decrementFollowingCount ::
  "collab \<Rightarrow> event list \<Rightarrow> Account \<Rightarrow> event list \<times> Account \<times> error option outcome" where
  "decrementFollowingCount env h account =
     (case db_PopulateAccountStats env h account of
        Inl err \<Rightarrow>
          (h @ [(PopulateAccountStats account, Some err)], account,
           Return (Some (Newf ''db error getting account stats: %w'' err)))
      | Inr account1 \<Rightarrow>
          (let h1 = h @ [(PopulateAccountStats account, None)]
           in case Account_Stats account1 of
                None \<Rightarrow> (h1, account1, Panic)
              | Some stats \<Rightarrow>
                  (case Stats_FollowingCount stats of
                     None \<Rightarrow> (h1, account1, Panic)
                   | Some n \<Rightarrow>
                       (let stats1 = stats\<lparr>Stats_FollowingCount := Some (n - 1)\<rparr>;
                            stats2 = (if n - 1 <s 0
                                      then stats1\<lparr>Stats_FollowingCount := Some 0\<rparr>
                                      else stats1)
                        in update_stats env h1 account1 stats2 [''following_count'']))))"

definition incrementFollowRequestsCount ::
  "collab \<Rightarrow> event list \<Rightarrow> Account \<Rightarrow> event list \<times> Account \<times> error option outcome" where
  "incrementFollowRequestsCount env h account =
     (case db_PopulateAccountStats env h account of
        Inl err \<Rightarrow>
          (h @ [(PopulateAccountStats account, Some err)], account,
           Return (Some (Newf ''db error getting account stats: %w'' err)))
      | Inr account1 \<Rightarrow>
          (let h1 = h @ [(PopulateAccountStats account, None)]
           in case Account_Stats account1 of
                None \<Rightarrow> (h1, account1, Panic)
              | Some stats \<Rightarrow>
                  (case Stats_FollowRequestsCount stats of
                     None \<Rightarrow> (h1, account1, Panic)
                   | Some n \<Rightarrow>
                       update_stats env h1 account1
                         (stats\<lparr>Stats_FollowRequestsCount := Some (n + 1)\<rparr>)
                         [''follow_requests_count''])))"

definition decrementFollowRequestsCount ::
  "collab \<Rightarrow> event list \<Rightarrow> Account \<Rightarrow> event list \<times> Account \<times> error option outcome" where
  "decrementFollowRequestsCount env h account =
     (case db_PopulateAccountStats env h account of
        Inl err \<Rightarrow>
          (h @ [(PopulateAccountStats account, Some err)], account,
           Return (Some (Newf ''db error getting account stats: %w'' err)))
      | Inr account1 \<Rightarrow>
          (let h1 = h @ [(PopulateAccountStats account, None)]
           in case Account_Stats account1 of
                None \<Rightarrow> (h1, account1, Panic)
              | Some stats \<Rightarrow>
                  (case Stats_FollowRequestsCount stats of
                     None \<Rightarrow> (h1, account1, Panic)
                   | Some n \<Rightarrow>
                       (let stats1 = stats\<lparr>Stats_FollowRequestsCount := Some (n - 1)\<rparr>;
                            stats2 = (if n - 1 <s 0
                                      then stats1\<lparr>Stats_FollowRequestsCount := Some 0\<rparr>
                                      else stats1)
                        in update_stats env h1 account1 stats2 [''follow_requests_count'']))))"

section \<open>The approval issuer\<close>

text \<open>
  Each function returns the history, the subject as it has been mutated in place, and
  what the function returned: \<open>Inl err\<close> is \<open>(nil, err)\<close>, \<open>Inr approval\<close> is
  \<open>(approval, nil)\<close>. Reading \<open>Username\<close> through a nil account pointer panics.
\<close>

definition approveFave ::
  "collab \<Rightarrow> event list \<Rightarrow> StatusFave \<Rightarrow>
   event list \<times> StatusFave \<times> (error + InteractionApproval) outcome" where
  "approveFave env h fave =
     (let id = id_NewULID env h
      in case Fave_TargetAccount fave of
           None \<Rightarrow> (h, fave, Panic)
         | Some targetAccount \<Rightarrow>
             (let approval =
                    \<lparr>Approval_ID = id,
                     Approval_AccountID = Fave_TargetAccountID fave,
                     Approval_Account = Fave_TargetAccount fave,
                     Approval_InteractingAccountID = Fave_AccountID fave,
                     Approval_InteractingAccount = Fave_Account fave,
                     Approval_InteractionURI = Fave_URI fave,
                     Approval_InteractionType = InteractionLike,
                     Approval_URI =
                       uris_GenerateURIForAccept env (Account_Username targetAccount) id\<rparr>;
                  put = PutInteractionApproval approval
              in case respond env h put of
                   Some err \<Rightarrow>
                     (h @ [(put, Some err)], fave,
                      Return (Inl (Newf ''db error inserting interaction approval: %w'' err)))
                 | None \<Rightarrow>
                     (let h1 = h @ [(put, None)];
                          fave1 = fave\<lparr>Fave_PendingApproval := Some False\<rparr>;
                          fave2 = fave1\<lparr>Fave_PreApproved := False\<rparr>;
                          fave3 = fave2\<lparr>Fave_ApprovedByURI := Approval_URI approval\<rparr>;
                          update = UpdateStatusFave fave3 [''pending_approval'', ''approved_by_uri'']
                      in case respond env h1 update of
                           Some err \<Rightarrow>
                             (h1 @ [(update, Some err)], fave3,
                              Return (Inl (Newf ''db error updating status fave: %w'' err)))
                         | None \<Rightarrow> (h1 @ [(update, None)], fave3, Return (Inr approval)))))"

definition approveReply ::
  "collab \<Rightarrow> event list \<Rightarrow> Status \<Rightarrow>
   event list \<times> Status \<times> (error + InteractionApproval) outcome" where
  "approveReply env h status =
     (let id = id_NewULID env h
      in case Status_InReplyToAccount status of
           None \<Rightarrow> (h, status, Panic)
         | Some inReplyToAccount \<Rightarrow>
             (let approval =
                    \<lparr>Approval_ID = id,
                     Approval_AccountID = Status_InReplyToAccountID status,
                     Approval_Account = Status_InReplyToAccount status,
                     Approval_InteractingAccountID = Status_AccountID status,
                     Approval_InteractingAccount = Status_Account status,
                     Approval_InteractionURI = Status_URI status,
                     Approval_InteractionType = InteractionReply,
                     Approval_URI =
                       uris_GenerateURIForAccept env (Account_Username inReplyToAccount) id\<rparr>;
                  put = PutInteractionApproval approval
              in case respond env h put of
                   Some err \<Rightarrow>
                     (h @ [(put, Some err)], status,
                      Return (Inl (Newf ''db error inserting interaction approval: %w'' err)))
                 | None \<Rightarrow>
                     (let h1 = h @ [(put, None)];
                          status1 = status\<lparr>Status_PendingApproval := Some False\<rparr>;
                          status2 = status1\<lparr>Status_PreApproved := False\<rparr>;
                          status3 = status2\<lparr>Status_ApprovedByURI := Approval_URI approval\<rparr>;
                          update = UpdateStatus status3 [''pending_approval'', ''approved_by_uri'']
                      in case respond env h1 update of
                           Some err \<Rightarrow>
                             (h1 @ [(update, Some err)], status3,
                              Return (Inl (Newf ''db error updating status: %w'' err)))
                         | None \<Rightarrow> (h1 @ [(update, None)], status3, Return (Inr approval)))))"

definition approveAnnounce ::
  "collab \<Rightarrow> event list \<Rightarrow> Status \<Rightarrow>
   event list \<times> Status \<times> (error + InteractionApproval) outcome" where
  "approveAnnounce env h boost =
     (let id = id_NewULID env h
      in case Status_BoostOfAccount boost of
           None \<Rightarrow> (h, boost, Panic)
         | Some boostOfAccount \<Rightarrow>
             (let approval =
                    \<lparr>Approval_ID = id,
                     Approval_AccountID = Status_BoostOfAccountID boost,
                     Approval_Account = Status_BoostOfAccount boost,
                     Approval_InteractingAccountID = Status_AccountID boost,
                     Approval_InteractingAccount = Status_Account boost,
                     Approval_InteractionURI = Status_URI boost,
                     Approval_InteractionType = InteractionReply,
                     Approval_URI =
                       uris_GenerateURIForAccept env (Account_Username boostOfAccount) id\<rparr>;
                  put = PutInteractionApproval approval
              in case respond env h put of
                   Some err \<Rightarrow>
                     (h @ [(put, Some err)], boost,
                      Return (Inl (Newf ''db error inserting interaction approval: %w'' err)))
                 | None \<Rightarrow>
                     (let h1 = h @ [(put, None)];
                          boost1 = boost\<lparr>Status_PendingApproval := Some False\<rparr>;
                          boost2 = boost1\<lparr>Status_PreApproved := False\<rparr>;
                          boost3 = boost2\<lparr>Status_ApprovedByURI := Approval_URI approval\<rparr>;
                          update = UpdateStatus boost3 [''pending_approval'', ''approved_by_uri'']
                      in case respond env h1 update of
                           Some err \<Rightarrow>
                             (h1 @ [(update, Some err)], boost3,
                              Return (Inl (Newf ''db error updating boost wrapper status: %w'' err)))
                         | None \<Rightarrow> (h1 @ [(update, None)], boost3, Return (Inr approval)))))"

section \<open>What the deletion cascade is expected to do\<close>

text \<open>
  The steps of the cascade as the spec lists them: the calls in order, each with the
  annotation under which its failure is reported (\<open>None\<close>: the call is never
  reported). \<open>wipe_steps_before\<close> are the steps up to the poll cleanup,
  \<open>wipe_steps_after\<close> those that follow the fetch of the boosts, given the
  boosts that were fetched.
\<close>

definition wipe_steps_before :: "Status \<Rightarrow> bool \<Rightarrow> (call \<times> string option) list" where
  "wipe_steps_before s deleteAttachments =
     (if deleteAttachments
      then map (\<lambda>id. (MediaDelete id, Some ''error deleting media: %w'')) (Status_AttachmentIDs s)
      else map (\<lambda>id. (MediaUnattach (Status_Account s) id, Some ''error unattaching media: %w''))
             (Status_AttachmentIDs s))
     @ map (\<lambda>id. (DeleteMentionByID id, Some ''error deleting status mention: %w'')) (Status_MentionIDs s)
     @ [(DeleteNotificationsForStatus (Status_ID s), Some ''error deleting status notifications: %w''),
        (DeleteStatusBookmarksForStatus (Status_ID s), Some ''error deleting status bookmarks: %w''),
        (DeleteStatusFavesForStatus (Status_ID s), Some ''error deleting status faves: %w'')]
     @ (if Status_PollID s \<noteq> []
        then [(DeletePollByID (Status_PollID s), Some ''error deleting status poll: %w''),
              (DeletePollVotes (Status_PollID s), Some ''error deleting status poll votes: %w''),
              (SchedulerCancel (Status_PollID s), None)]
        else [])"

definition wipe_steps_after :: "Status \<Rightarrow> Status list \<Rightarrow> (call \<times> string option) list" where
  "wipe_steps_after s boosts =
     concat (map (\<lambda>boost.
        [(DeleteStatusFromTimelines (Status_ID boost), Some ''error deleting boost from timelines: %w''),
         (DeleteStatusByID (Status_ID boost), Some ''error deleting boost: %w'')]) boosts)
     @ [(DeleteStatusFromTimelines (Status_ID s), Some ''error deleting status from timelines: %w''),
        (DeleteStatusFromConversations (Status_ID s), Some ''error deleting status from conversations: %w''),
        (DeleteStatusByID (Status_ID s), Some ''error deleting status: %w'')]"

definition wipe_steps :: "Status \<Rightarrow> bool \<Rightarrow> Status list \<Rightarrow> (call \<times> string option) list" where
  "wipe_steps s deleteAttachments boosts =
     wipe_steps_before s deleteAttachments
     @ [(GetStatusBoosts (Status_ID s), Some ''error fetching status boosts: %w'')]
     @ wipe_steps_after s boosts"

text \<open>
  The failures a run reports: for every step with an annotation whose call returned an
  error, that error under the annotation, in the order of the steps.
\<close>

definition reported1 :: "call \<times> string option \<Rightarrow> event \<Rightarrow> error list" where
  "reported1 step ev =
     (case (snd step, snd ev) of (Some fmt, Some err) \<Rightarrow> [Wrapped fmt err] | _ \<Rightarrow> [])"

definition reported :: "(call \<times> string option) list \<Rightarrow> event list \<Rightarrow> error list" where
  "reported steps evs = concat (map2 reported1 steps evs)"

text \<open>The boosts that \<open>GetStatusBoosts\<close> gives at a history: none on an error.\<close>

definition fetched_boosts :: "collab \<Rightarrow> event list \<Rightarrow> Status \<Rightarrow> Status list" where
  "fetched_boosts env h s =
     (case db_GetStatusBoosts env h (Status_ID s) of Inl err \<Rightarrow> [] | Inr boosts \<Rightarrow> boosts)"

text \<open>
  \<open>extends st steps st'\<close>: from the state \<open>st\<close>, the state \<open>st'\<close> is reached by
  making exactly the calls of \<open>steps\<close> and appending exactly their reported
  failures. \<open>wipe_before\<close> and \<open>wipe_after\<close> name the two halves of the body of
  \<open>wipeStatus\<close>, before and after the fetch of the boosts.
\<close>

definition extends :: "wipe_state \<Rightarrow> (call \<times> string option) list \<Rightarrow> wipe_state \<Rightarrow> bool" where
  "extends st steps st' =
     (\<exists>evs. ws_trace st' = ws_trace st @ evs \<and> map fst evs = map fst steps \<and>
            ws_errs st' = ws_errs st @ reported steps evs)"

definition wipe_before :: "collab \<Rightarrow> event list \<Rightarrow> Status \<Rightarrow> bool \<Rightarrow> wipe_state" where
  "wipe_before env h s d =
     (let st0 = \<lparr>ws_trace = h, ws_errs = []\<rparr>;
          st1 = (if d
                 then fold (\<lambda>id. attempt env (MediaDelete id) ''error deleting media: %w'')
                        (Status_AttachmentIDs s) st0
                 else fold (\<lambda>id. attempt env (MediaUnattach (Status_Account s) id)
                                   ''error unattaching media: %w'')
                        (Status_AttachmentIDs s) st0);
          st2 = fold (\<lambda>id. attempt env (DeleteMentionByID id) ''error deleting status mention: %w'')
                  (Status_MentionIDs s) st1;
          st3 = attempt env (DeleteNotificationsForStatus (Status_ID s))
                  ''error deleting status notifications: %w'' st2;
          st4 = attempt env (DeleteStatusBookmarksForStatus (Status_ID s))
                  ''error deleting status bookmarks: %w'' st3;
          st5 = attempt env (DeleteStatusFavesForStatus (Status_ID s))
                  ''error deleting status faves: %w'' st4
      in if Status_PollID s \<noteq> [] then wipe_poll env (Status_PollID s) st5 else st5)"

definition wipe_after :: "collab \<Rightarrow> Status \<Rightarrow> Status list \<Rightarrow> wipe_state \<Rightarrow> wipe_state" where
  "wipe_after env s boosts st7 =
     (let st8 = fold (wipe_boost env) boosts st7;
          st9 = attempt env (DeleteStatusFromTimelines (Status_ID s))
                  ''error deleting status from timelines: %w'' st8;
          st10 = attempt env (DeleteStatusFromConversations (Status_ID s))
                   ''error deleting status from conversations: %w'' st9
      in attempt env (DeleteStatusByID (Status_ID s)) ''error deleting status: %w'' st10)"

text \<open>
  The events of one run (those it appended to the history), and the boosts its
  \<open>GetStatusBoosts\<close> call returned.
\<close>

definition wipe_events :: "collab \<Rightarrow> event list \<Rightarrow> Status \<Rightarrow> bool \<Rightarrow> event list" where
  "wipe_events env h s d = drop (length h) (fst (wipeStatus env h s d))"

definition wipe_boosts :: "collab \<Rightarrow> event list \<Rightarrow> Status \<Rightarrow> bool \<Rightarrow> Status list" where
  "wipe_boosts env h s d =
     fetched_boosts env
       (take (length h + length (wipe_steps_before s d)) (fst (wipeStatus env h s d))) s"

text \<open>The three calls of the poll cleanup.\<close>

fun is_poll_call :: "call \<Rightarrow> bool" where
  "is_poll_call (DeletePollByID p) = True"
| "is_poll_call (DeletePollVotes p) = True"
| "is_poll_call (SchedulerCancel p) = True"
| "is_poll_call c = False"

section \<open>What the follower migration is expected to do\<close>

text \<open>
  A failure that makes \<open>redirectFollowers\<close> return false: any call that returned an
  error, except the lookup of the followers when its error is \<open>db.ErrNoEntries\<close>.
\<close>

fun fatal :: "event \<Rightarrow> bool" where
  "fatal (GetAccountLocalFollowers accountID, Some err) = (\<not> errors_Is_ErrNoEntries err)"
| "fatal (c, Some err) = True"
| "fatal (c, None) = False"

fun is_FollowRemove :: "call \<Rightarrow> bool" where
  "is_FollowRemove (FollowRemove account targetID) = True"
| "is_FollowRemove c = False"



text \<open>
  What is expected for a follower that is the migration target itself, from the
  history \<open>h\<close>: its account is resolved and, if that succeeds, its old follow is
  retracted. No follow is created.
\<close>

definition retract_only :: "collab \<Rightarrow> Follow \<Rightarrow> event list \<Rightarrow> event list" where
  "retract_only env follow h =
     (case db_GetAccountByID env h (Follow_AccountID follow) of
        Inl err \<Rightarrow> [(GetAccountByID (Follow_AccountID follow), Some err)]
      | Inr account \<Rightarrow>
          [(GetAccountByID (Follow_AccountID follow), None),
           (FollowRemove account (Follow_TargetAccountID follow),
            respond env (h @ [(GetAccountByID (Follow_AccountID follow), None)])
              (FollowRemove account (Follow_TargetAccountID follow)))])"

section \<open>What the counter functions are expected to do\<close>

text \<open>
  The four counters of the statistics, with the field and the column of each, and the
  \<open>increment...\<close> and \<open>decrement...\<close> function of each. Only
  \<open>incrementStatusesCount\<close> takes the status.
\<close>

datatype counter = StatusesCounter | FollowersCounter | FollowingCounter | FollowRequestsCounter

fun counter_get :: "counter \<Rightarrow> AccountStats \<Rightarrow> go_int option" where
  "counter_get StatusesCounter stats = Stats_StatusesCount stats"
| "counter_get FollowersCounter stats = Stats_FollowersCount stats"
| "counter_get FollowingCounter stats = Stats_FollowingCount stats"
| "counter_get FollowRequestsCounter stats = Stats_FollowRequestsCount stats"

fun counter_set :: "counter \<Rightarrow> go_int \<Rightarrow> AccountStats \<Rightarrow> AccountStats" where
  "counter_set StatusesCounter v stats = stats\<lparr>Stats_StatusesCount := Some v\<rparr>"
| "counter_set FollowersCounter v stats = stats\<lparr>Stats_FollowersCount := Some v\<rparr>"
| "counter_set FollowingCounter v stats = stats\<lparr>Stats_FollowingCount := Some v\<rparr>"
| "counter_set FollowRequestsCounter v stats = stats\<lparr>Stats_FollowRequestsCount := Some v\<rparr>"

fun counter_column :: "counter \<Rightarrow> string" where
  "counter_column StatusesCounter = ''statuses_count''"
| "counter_column FollowersCounter = ''followers_count''"
| "counter_column FollowingCounter = ''following_count''"
| "counter_column FollowRequestsCounter = ''follow_requests_count''"

fun increment ::
  "counter \<Rightarrow> collab \<Rightarrow> event list \<Rightarrow> Account \<Rightarrow> Status \<Rightarrow>
   event list \<times> Account \<times> error option outcome" where
  "increment StatusesCounter env h account status = incrementStatusesCount env h account status"
| "increment FollowersCounter env h account status = incrementFollowersCount env h account"
| "increment FollowingCounter env h account status = incrementFollowingCount env h account"
| "increment FollowRequestsCounter env h account status = incrementFollowRequestsCount env h account"

fun decrement ::
  "counter \<Rightarrow> collab \<Rightarrow> event list \<Rightarrow> Account \<Rightarrow>
   event list \<times> Account \<times> error option outcome" where
  "decrement StatusesCounter env h account = decrementStatusesCount env h account"
| "decrement FollowersCounter env h account = decrementFollowersCount env h account"
| "decrement FollowingCounter env h account = decrementFollowingCount env h account"
| "decrement FollowRequestsCounter env h account = decrementFollowRequestsCount env h account"

text \<open>
  Any number of decrement calls, one after the other, on the same account object:
  each call starts from the history and the account that the call before left. A
  panic ends the sequence.
\<close>

fun decrements :: "collab \<Rightarrow> counter list \<Rightarrow> event list \<Rightarrow> Account \<Rightarrow> event list" where
  "decrements env [] h account = h"
| "decrements env (k # ks) h account =
     (case decrement k env h account of
        (h', account', Panic) \<Rightarrow> h'
      | (h', account', Return r) \<Rightarrow> decrements env ks h' account')"

text \<open>
  The counter that a column of the statistics holds, and what an event writes: an
  \<open>UpdateAccountStats\<close> writes non-negative values when every column it names
  holds a counter that is set and not below zero. Every other event writes no
  statistics.
\<close>

fun stats_column_value :: "string \<Rightarrow> AccountStats \<Rightarrow> go_int option" where
  "stats_column_value column stats =
     (if column = ''statuses_count'' then Stats_StatusesCount stats
      else if column = ''followers_count'' then Stats_FollowersCount stats
      else if column = ''following_count'' then Stats_FollowingCount stats
      else if column = ''follow_requests_count'' then Stats_FollowRequestsCount stats
      else None)"

fun writes_nonneg :: "event \<Rightarrow> bool" where
  "writes_nonneg (UpdateAccountStats stats columns, r) =
     list_all (\<lambda>column. case stats_column_value column stats of
                           None \<Rightarrow> False
                         | Some v \<Rightarrow> 0 \<le>s v) columns"
| "writes_nonneg ev = True"

text \<open>
  Modelled from the spec: the store's \<open>UpdateAccountStats\<close> is not among the
  sources. By the spec, its update-fields operation is a partial update: only the
  named fields are written. \<open>write_stats_column column stats row\<close> is the stored
  row after the column \<open>column\<close> has been written from \<open>stats\<close>. The column
  names are the ones that \<open>util.go\<close> passes; any other name writes no field of the
  model.
\<close>

fun write_stats_column :: "string \<Rightarrow> AccountStats \<Rightarrow> AccountStats \<Rightarrow> AccountStats" where
  "write_stats_column column stats row =
     (if column = ''statuses_count''
      then row\<lparr>Stats_StatusesCount := Stats_StatusesCount stats\<rparr>
      else if column = ''last_status_at''
      then row\<lparr>Stats_LastStatusAt := Stats_LastStatusAt stats\<rparr>
      else if column = ''followers_count''
      then row\<lparr>Stats_FollowersCount := Stats_FollowersCount stats\<rparr>
      else if column = ''following_count''
      then row\<lparr>Stats_FollowingCount := Stats_FollowingCount stats\<rparr>
      else if column = ''follow_requests_count''
      then row\<lparr>Stats_FollowRequestsCount := Stats_FollowRequestsCount stats\<rparr>
      else row)"

text \<open>
  Modelled from the spec: the stored row after
  \<open>UpdateAccountStats(ctx, stats, columns...)\<close>, which is not among the sources:
  each named column is written, and nothing else.
\<close>

definition write_stats_columns :: "string list \<Rightarrow> AccountStats \<Rightarrow> AccountStats \<Rightarrow> AccountStats" where
  "write_stats_columns columns stats row = fold (\<lambda>column. write_stats_column column stats) columns row"

text \<open>The value a decrement stores for a counter that held \<open>n\<close>.\<close>

definition clamped :: "go_int \<Rightarrow> go_int" where
  "clamped n = (if n - 1 <s 0 then 0 else n - 1)"

text \<open>
  What an increment of the counter \<open>k\<close> is expected to store when the counter held
  \<open>n\<close>, and the columns it is expected to name: the one counter, and for the
  statuses counter also the time of the last status.
\<close>

definition incremented :: "counter \<Rightarrow> go_int \<Rightarrow> Status \<Rightarrow> AccountStats \<Rightarrow> AccountStats" where
  "incremented k n status stats =
     (if k = StatusesCounter
      then (counter_set k (n + 1) stats)\<lparr>Stats_LastStatusAt := Status_CreatedAt status\<rparr>
      else counter_set k (n + 1) stats)"

definition increment_columns :: "counter \<Rightarrow> string list" where
  "increment_columns k =
     (if k = StatusesCounter then [''statuses_count'', ''last_status_at''] else [counter_column k])"

text \<open>
  The run expected of a counter function whose populate call succeeded with
  \<open>account1\<close>: the populate event, then one \<open>UpdateAccountStats\<close> of \<open>stats\<close>
  naming exactly \<open>columns\<close>; the account holds \<open>stats\<close>; the function returns
  the error of the update under its annotation, or \<open>nil\<close>.
\<close>

definition counter_run ::
  "collab \<Rightarrow> event list \<Rightarrow> Account \<Rightarrow> Account \<Rightarrow> AccountStats \<Rightarrow> string list \<Rightarrow>
   event list \<times> Account \<times> error option outcome" where
  "counter_run env h account account1 stats columns =
     (h @ [(PopulateAccountStats account, None),
           (UpdateAccountStats stats columns,
            respond env (h @ [(PopulateAccountStats account, None)])
              (UpdateAccountStats stats columns))],
      account1\<lparr>Account_Stats := Some stats\<rparr>,
      Return (map_option (Newf ''db error updating account stats: %w'')
        (respond env (h @ [(PopulateAccountStats account, None)])
           (UpdateAccountStats stats columns))))"

section \<open>What the approval issuer is expected to do\<close>

text \<open>
  The interaction kinds of the approvals that a run put into the store, and the kind
  of the approval that a call returned.
\<close>

fun put_type :: "event \<Rightarrow> InteractionType list" where
  "put_type (PutInteractionApproval approval, r) = [Approval_InteractionType approval]"
| "put_type ev = []"

definition persisted_types :: "event list \<Rightarrow> InteractionType list" where
  "persisted_types h = concat (map put_type h)"

fun returned_type :: "(error + InteractionApproval) outcome \<Rightarrow> InteractionType option" where
  "returned_type (Return (Inr approval)) = Some (Approval_InteractionType approval)"
| "returned_type res = None"

text \<open>
  Modelled from the spec: the store's \<open>UpdateStatusFave\<close> is not among the sources.
  By the spec, its update-fields operation is a partial update: only the named fields
  are written. \<open>write_fave_column column fave row\<close> is the stored row after the
  column \<open>column\<close> has been written from \<open>fave\<close>. The column names are the ones
  that \<open>util.go\<close> passes; any other name writes no field of the model.
\<close>

fun write_fave_column :: "string \<Rightarrow> StatusFave \<Rightarrow> StatusFave \<Rightarrow> StatusFave" where
  "write_fave_column column fave row =
     (if column = ''pending_approval''
      then row\<lparr>Fave_PendingApproval := Fave_PendingApproval fave\<rparr>
      else if column = ''approved_by_uri''
      then row\<lparr>Fave_ApprovedByURI := Fave_ApprovedByURI fave\<rparr>
      else row)"

text \<open>
  Modelled from the spec: the stored row after
  \<open>UpdateStatusFave(ctx, fave, columns...)\<close>, which is not among the sources: each
  named column is written, and nothing else.
\<close>

definition write_fave_columns :: "string list \<Rightarrow> StatusFave \<Rightarrow> StatusFave \<Rightarrow> StatusFave" where
  "write_fave_columns columns fave row = fold (\<lambda>column. write_fave_column column fave) columns row"

text \<open>
  Modelled from the spec: the store's \<open>UpdateStatus\<close> is not among the sources; it
  is the same partial update, of a status.
\<close>

fun write_status_column :: "string \<Rightarrow> Status \<Rightarrow> Status \<Rightarrow> Status" where
  "write_status_column column status row =
     (if column = ''pending_approval''
      then row\<lparr>Status_PendingApproval := Status_PendingApproval status\<rparr>
      else if column = ''approved_by_uri''
      then row\<lparr>Status_ApprovedByURI := Status_ApprovedByURI status\<rparr>
      else row)"

text \<open>
  Modelled from the spec: the stored row after
  \<open>UpdateStatus(ctx, status, columns...)\<close>, which is not among the sources: each
  named column is written, and nothing else.
\<close>

definition write_status_columns :: "string list \<Rightarrow> Status \<Rightarrow> Status \<Rightarrow> Status" where
  "write_status_columns columns status row =
     fold (\<lambda>column. write_status_column column status) columns row"

text \<open>
  Modelled from the spec: the stored row of a fave after the store has carried out
  the \<open>UpdateStatusFave\<close> calls of a history that succeeded, in order. A call that
  returned an error, and every other call, leaves the row as it is.
\<close>

fun persist_fave_event :: "event \<Rightarrow> StatusFave \<Rightarrow> StatusFave" where
  "persist_fave_event (UpdateStatusFave fave columns, None) row = write_fave_columns columns fave row"
| "persist_fave_event ev row = row"

text \<open>Modelled from the spec: the stored row of a fave after a whole history.\<close>

definition persisted_fave :: "event list \<Rightarrow> StatusFave \<Rightarrow> StatusFave" where
  "persisted_fave h row = fold persist_fave_event h row"

section \<open>Sample inputs\<close>

text \<open>
  Concrete accounts, follows and collaborators, on which the theorems below are
  instantiated. With \<open>calm\<close> every call succeeds: the store has no boosts and no
  followers, resolves every account identifier, and leaves the statistics of an
  account as they are.
\<close>

definition sample_account :: "string \<Rightarrow> Account" where
  "sample_account name =
     \<lparr>Account_ID = name,
      Account_URI = ''https://example.org/users/'' @ name,
      Account_Username = name,
      Account_Stats = None\<rparr>"

definition sample_follow :: "string \<Rightarrow> string \<Rightarrow> Follow" where
  "sample_follow follower target =
     \<lparr>Follow_ID = follower @ ''-follows-'' @ target,
      Follow_AccountID = follower,
      Follow_Account = None,
      Follow_TargetAccountID = target,
      Follow_ShowReblogs = Some True,
      Follow_Notify = Some False\<rparr>"

definition calm :: collab where
  "calm =
     \<lparr>respond = (\<lambda>h c. None),
      db_GetStatusBoosts = (\<lambda>h statusID. Inr []),
      db_GetAccountLocalFollowers = (\<lambda>h accountID. Inr []),
      db_GetAccountByID = (\<lambda>h accountID. Inr (sample_account accountID)),
      db_PopulateAccountStats = (\<lambda>h account. Inr account),
      scheduler_Cancel = (\<lambda>h taskID. True),
      id_NewULID = (\<lambda>h. ''01J2ZQXK5M8T4W9R7Y3N6V0C1B''),
      uris_GenerateURIForAccept =
        (\<lambda>username id. ''https://example.org/users/'' @ username @ ''/accepts/'' @ id)\<rparr>"

text \<open>
  \<open>moving\<close>: the account asked for has three local followers, carol, bob and dave.
  \<open>refusing\<close>: as \<open>moving\<close>, but the creation of a follow by dave fails.
  \<open>vacant\<close>: the lookup of the local followers fails with a wrapped
  \<open>db.ErrNoEntries\<close>.
\<close>

definition moving :: collab where
  "moving = calm\<lparr>db_GetAccountLocalFollowers :=
     (\<lambda>h accountID. Inr [sample_follow ''carol'' accountID, sample_follow ''bob'' accountID,
                         sample_follow ''dave'' accountID])\<rparr>"



text \<open>
  Statistics whose statuses counter is zero, and the account alice that holds them; a
  status of alice; a fave by bob of a status of alice and a boost by bob of a status
  of alice, both pending approval and pre-approved.
\<close>

definition sample_stats :: AccountStats where
  "sample_stats =
     \<lparr>Stats_AccountID = ''alice'',
      Stats_FollowersCount = Some 2,
      Stats_FollowingCount = Some 0,
      Stats_FollowRequestsCount = Some 1,
      Stats_StatusesCount = Some 0,
      Stats_LastStatusAt = 1700000000\<rparr>"

definition counted_account :: Account where
  "counted_account = (sample_account ''alice'')\<lparr>Account_Stats := Some sample_stats\<rparr>"

definition sample_status :: Status where
  "sample_status =
     \<lparr>Status_ID = ''01HZX3'',
      Status_URI = ''https://example.org/users/alice/statuses/01HZX3'',
      Status_CreatedAt = 1720000000,
      Status_AccountID = ''alice'',
      Status_Account = Some (sample_account ''alice''),
      Status_AttachmentIDs = [''01ATT1'', ''01ATT2''],
      Status_MentionIDs = [''01MEN1''],
      Status_PollID = ''01POLL'',
      Status_InReplyToAccountID = [],
      Status_InReplyToAccount = None,
      Status_BoostOfAccountID = [],
      Status_BoostOfAccount = None,
      Status_PendingApproval = Some False,
      Status_PreApproved = False,
      Status_ApprovedByURI = []\<rparr>"

definition pending_fave :: StatusFave where
  "pending_fave =
     \<lparr>Fave_ID = ''01FAVE'',
      Fave_URI = ''https://example.org/users/bob/liked/01FAVE'',
      Fave_AccountID = ''bob'',
      Fave_Account = Some (sample_account ''bob''),
      Fave_TargetAccountID = ''alice'',
      Fave_TargetAccount = Some (sample_account ''alice''),
      Fave_PendingApproval = Some True,
      Fave_PreApproved = True,
      Fave_ApprovedByURI = []\<rparr>"

definition pending_reply :: Status where
  "pending_reply =
     \<lparr>Status_ID = ''01RPLY'',
      Status_URI = ''https://example.org/users/bob/statuses/01RPLY'',
      Status_CreatedAt = 1720000100,
      Status_AccountID = ''bob'',
      Status_Account = Some (sample_account ''bob''),
      Status_AttachmentIDs = [],
      Status_MentionIDs = [],
      Status_PollID = [],
      Status_InReplyToAccountID = ''alice'',
      Status_InReplyToAccount = Some (sample_account ''alice''),
      Status_BoostOfAccountID = [],
      Status_BoostOfAccount = None,
      Status_PendingApproval = Some True,
      Status_PreApproved = True,
      Status_ApprovedByURI = []\<rparr>"

definition pending_boost :: Status where
  "pending_boost =
     \<lparr>Status_ID = ''01BOOS'',
      Status_URI = ''https://example.org/users/bob/statuses/01BOOS'',
      Status_CreatedAt = 1720000200,
      Status_AccountID = ''bob'',
      Status_Account = Some (sample_account ''bob''),
      Status_AttachmentIDs = [],
      Status_MentionIDs = [],
      Status_PollID = [],
      Status_InReplyToAccountID = [],
      Status_InReplyToAccount = None,
      Status_BoostOfAccountID = ''alice'',
      Status_BoostOfAccount = Some (sample_account ''alice''),
      Status_PendingApproval = Some True,
      Status_PreApproved = True,
      Status_ApprovedByURI = []\<rparr>"

text \<open>
  The approval that alice's side issues, under \<open>calm\<close>, for an interaction of bob
  with the given URI, and its URI.
\<close>

definition accept_uri :: string where
  "accept_uri = ''https://example.org/users/alice/accepts/01J2ZQXK5M8T4W9R7Y3N6V0C1B''"

definition sample_approval :: "InteractionType \<Rightarrow> string \<Rightarrow> InteractionApproval" where
  "sample_approval kind uri =
     \<lparr>Approval_ID = ''01J2ZQXK5M8T4W9R7Y3N6V0C1B'',
      Approval_AccountID = ''alice'',
      Approval_Account = Some (sample_account ''alice''),
      Approval_InteractingAccountID = ''bob'',
      Approval_InteractingAccount = Some (sample_account ''bob''),
      Approval_InteractionURI = uri,
      Approval_InteractionType = kind,
      Approval_URI = accept_uri\<rparr>"

text \<open>
  \<open>flaky\<close>: the status asked for has one boost, \<open>pending_boost\<close>; the deletion of
  the attachment \<open>01ATT1\<close> fails, and so does the deletion of the boost; every
  other call succeeds.
\<close>

definition flaky :: collab where
  "flaky = calm
     \<lparr>respond := (\<lambda>h c. if c = MediaDelete ''01ATT1'' then Some (ErrOther ''storage: permission denied'')
                          else if c = DeleteStatusByID ''01BOOS'' then Some ErrNoEntries
                          else None),
      db_GetStatusBoosts := (\<lambda>h statusID. Inr [pending_boost])\<rparr>"

section \<open>Properties of the deletion cascade\<close>

lemma reported_append:
  "length steps = length evs \<Longrightarrow>
   reported (steps @ steps') (evs @ evs') = reported steps evs @ reported steps' evs'"
  by (simp add: reported_def)

lemma reported_single:
  "reported [(c, Some fmt)] [(c', Some err)] = [Wrapped fmt err]"
  "reported [(c, a)] [(c', None)] = []"
  "reported [(c, None)] [ev] = []"
  by (simp_all add: reported_def reported1_def split: option.splits)

lemma extends_refl: "extends st [] st"
  by (simp add: extends_def reported_def)

lemma extends_trans:
  assumes "extends a steps b" and "extends b steps' c"
  shows "extends a (steps @ steps') c"
proof -
  from assms(1) obtain evs where evs: "ws_trace b = ws_trace a @ evs"
    "map fst evs = map fst steps" "ws_errs b = ws_errs a @ reported steps evs"
    unfolding extends_def by blast
  from assms(2) obtain evs' where evs': "ws_trace c = ws_trace b @ evs'"
    "map fst evs' = map fst steps'" "ws_errs c = ws_errs b @ reported steps' evs'"
    unfolding extends_def by blast
  from evs(2) have "length steps = length evs"
    by (metis length_map)
  then have "reported (steps @ steps') (evs @ evs') = reported steps evs @ reported steps' evs'"
    by (rule reported_append)
  with evs evs' show ?thesis
    unfolding extends_def by (intro exI [of _ "evs @ evs'"]) simp
qed

lemma extends_attempt: "extends st [(c, Some fmt)] (attempt env c fmt st)"
proof (cases "respond env (ws_trace st) c")
  case None
  then show ?thesis
    unfolding extends_def
    by (intro exI [of _ "[(c, None)]"]) (simp add: attempt_def reported_single)
next
  case (Some err)
  then show ?thesis
    unfolding extends_def
    by (intro exI [of _ "[(c, Some err)]"]) (simp add: attempt_def reported_single Appendf_def)
qed

lemma extends_fold_attempt:
  "extends st (map (\<lambda>x. (f x, Some fmt)) xs) (fold (\<lambda>x. attempt env (f x) fmt) xs st)"
proof (induction xs arbitrary: st)
  case Nil
  show ?case by (simp add: extends_refl)
next
  case (Cons x xs)
  from extends_trans [OF extends_attempt Cons.IH]
  show ?case by simp
qed

lemma extends_wipe_boost:
  "extends st [(DeleteStatusFromTimelines (Status_ID b), Some ''error deleting boost from timelines: %w''),
         (DeleteStatusByID (Status_ID b), Some ''error deleting boost: %w'')] (wipe_boost env b st)"
  using extends_trans [OF extends_attempt extends_attempt]
  by (simp add: wipe_boost_def)

lemma extends_fold_boost:
  "extends st (concat (map (\<lambda>boost.
        [(DeleteStatusFromTimelines (Status_ID boost), Some ''error deleting boost from timelines: %w''),
         (DeleteStatusByID (Status_ID boost), Some ''error deleting boost: %w'')]) bs))
     (fold (wipe_boost env) bs st)"
proof (induction bs arbitrary: st)
  case Nil
  show ?case by (simp add: extends_refl)
next
  case (Cons b bs)
  from extends_trans [OF extends_wipe_boost Cons.IH]
  show ?case by simp
qed

lemma extends_cancel:
  "extends st [(SchedulerCancel p, None)] (st\<lparr>ws_trace := ws_trace st @ [(SchedulerCancel p, None)]\<rparr>)"
  unfolding extends_def
  by (intro exI [of _ "[(SchedulerCancel p, None)]"]) (simp add: reported_single)

lemma extends_wipe_poll:
  "extends st [(DeletePollByID p, Some ''error deleting status poll: %w''),
              (DeletePollVotes p, Some ''error deleting status poll votes: %w''),
              (SchedulerCancel p, None)] (wipe_poll env p st)"
  using extends_trans [OF extends_trans [OF extends_attempt extends_attempt] extends_cancel]
  by (simp add: wipe_poll_def Let_def)

lemma extends_fetch:
  "extends st [(GetStatusBoosts (Status_ID s), Some ''error fetching status boosts: %w'')]
     (snd (wipe_fetch_boosts env (Status_ID s) st))"
proof (cases "db_GetStatusBoosts env (ws_trace st) (Status_ID s)")
  case (Inl err)
  then show ?thesis
    unfolding extends_def
    by (intro exI [of _ "[(GetStatusBoosts (Status_ID s), Some err)]"])
       (simp add: wipe_fetch_boosts_def reported_single Appendf_def)
next
  case (Inr bs)
  then show ?thesis
    unfolding extends_def
    by (intro exI [of _ "[(GetStatusBoosts (Status_ID s), None)]"])
       (simp add: wipe_fetch_boosts_def reported_single)
qed

lemma fst_wipe_fetch_boosts:
  "fst (wipe_fetch_boosts env (Status_ID s) st) = fetched_boosts env (ws_trace st) s"
  by (simp add: wipe_fetch_boosts_def fetched_boosts_def split: sum.splits)

lemma extends_wipe_before:
  "extends \<lparr>ws_trace = h, ws_errs = []\<rparr> (wipe_steps_before s d) (wipe_before env h s d)"
proof -
  let ?st0 = "\<lparr>ws_trace = h, ws_errs = []\<rparr>"
  let ?p1 = "if d
      then map (\<lambda>id. (MediaDelete id, Some ''error deleting media: %w'')) (Status_AttachmentIDs s)
      else map (\<lambda>id. (MediaUnattach (Status_Account s) id, Some ''error unattaching media: %w''))
             (Status_AttachmentIDs s)"
  let ?st1 = "if d
                 then fold (\<lambda>id. attempt env (MediaDelete id) ''error deleting media: %w'')
                        (Status_AttachmentIDs s) ?st0
                 else fold (\<lambda>id. attempt env (MediaUnattach (Status_Account s) id)
                                   ''error unattaching media: %w'')
                        (Status_AttachmentIDs s) ?st0"
  let ?p2 = "map (\<lambda>id. (DeleteMentionByID id, Some ''error deleting status mention: %w'')) (Status_MentionIDs s)"
  let ?st2 = "fold (\<lambda>id. attempt env (DeleteMentionByID id) ''error deleting status mention: %w'')
                  (Status_MentionIDs s) ?st1"
  let ?p3 = "[(DeleteNotificationsForStatus (Status_ID s), Some ''error deleting status notifications: %w'')]"
  let ?st3 = "attempt env (DeleteNotificationsForStatus (Status_ID s))
                  ''error deleting status notifications: %w'' ?st2"
  let ?p4 = "[(DeleteStatusBookmarksForStatus (Status_ID s), Some ''error deleting status bookmarks: %w'')]"
  let ?st4 = "attempt env (DeleteStatusBookmarksForStatus (Status_ID s))
                  ''error deleting status bookmarks: %w'' ?st3"
  let ?p5 = "[(DeleteStatusFavesForStatus (Status_ID s), Some ''error deleting status faves: %w'')]"
  let ?st5 = "attempt env (DeleteStatusFavesForStatus (Status_ID s))
                  ''error deleting status faves: %w'' ?st4"
  let ?p6 = "if Status_PollID s \<noteq> []
        then [(DeletePollByID (Status_PollID s), Some ''error deleting status poll: %w''),
              (DeletePollVotes (Status_PollID s), Some ''error deleting status poll votes: %w''),
              (SchedulerCancel (Status_PollID s), None)]
        else []"
  let ?st6 = "if Status_PollID s \<noteq> [] then wipe_poll env (Status_PollID s) ?st5 else ?st5"
  have 1: "extends ?st0 ?p1 ?st1"
    using extends_fold_attempt [of ?st0 MediaDelete]
      extends_fold_attempt [of ?st0 "MediaUnattach (Status_Account s)"]
    by (cases d) simp_all
  have 2: "extends ?st1 ?p2 ?st2"
    by (rule extends_fold_attempt)
  have 3: "extends ?st2 ?p3 ?st3"
    by (rule extends_attempt)
  have 4: "extends ?st3 ?p4 ?st4"
    by (rule extends_attempt)
  have 5: "extends ?st4 ?p5 ?st5"
    by (rule extends_attempt)
  have 6: "extends ?st5 ?p6 ?st6"
    using extends_wipe_poll [of ?st5 "Status_PollID s" env] extends_refl [of ?st5]
    by (cases "Status_PollID s = []") simp_all
  have "extends ?st0 (?p1 @ ?p2 @ ?p3 @ ?p4 @ ?p5 @ ?p6) ?st6"
    by (rule extends_trans [OF 1 extends_trans [OF 2 extends_trans [OF 3
          extends_trans [OF 4 extends_trans [OF 5 6]]]]])
  moreover have "?p1 @ ?p2 @ ?p3 @ ?p4 @ ?p5 @ ?p6 = wipe_steps_before s d"
    by (simp add: wipe_steps_before_def)
  moreover have "?st6 = wipe_before env h s d"
    by (simp add: wipe_before_def Let_def)
  ultimately show ?thesis
    by simp
qed

lemma extends_wipe_after:
  "extends st (wipe_steps_after s bs) (wipe_after env s bs st)"
  using extends_trans [OF extends_trans [OF extends_trans [OF extends_fold_boost extends_attempt] extends_attempt] extends_attempt]
  by (simp add: wipe_after_def wipe_steps_after_def Let_def)

lemma wipeStatus_unfold:
  "wipeStatus env h s d =
     (let st6 = wipe_before env h s d;
          r = wipe_fetch_boosts env (Status_ID s) st6;
          st11 = wipe_after env s (fst r) (snd r)
      in (ws_trace st11, Combine (ws_errs st11)))"
  by (simp add: wipeStatus_def wipe_before_def wipe_after_def Let_def split: prod.splits)

lemma wipeStatus_run:
  "\<exists>evs. fst (wipeStatus env h s d) = h @ evs \<and>
     map fst evs = map fst (wipe_steps s d
       (fetched_boosts env (h @ take (length (wipe_steps_before s d)) evs) s)) \<and>
     snd (wipeStatus env h s d) = Combine (reported (wipe_steps s d
       (fetched_boosts env (h @ take (length (wipe_steps_before s d)) evs) s)) evs)"
proof -
  define st6 where "st6 = wipe_before env h s d"
  define r where "r = wipe_fetch_boosts env (Status_ID s) st6"
  define st11 where "st11 = wipe_after env s (fst r) (snd r)"
  have run: "wipeStatus env h s d = (ws_trace st11, Combine (ws_errs st11))"
    by (simp add: wipeStatus_unfold st6_def r_def st11_def Let_def)
  have e6: "extends \<lparr>ws_trace = h, ws_errs = []\<rparr> (wipe_steps_before s d) st6"
    unfolding st6_def by (rule extends_wipe_before)
  then obtain evs6 where evs6: "ws_trace st6 = h @ evs6"
    "map fst evs6 = map fst (wipe_steps_before s d)"
    unfolding extends_def by auto
  from evs6(2) have len6: "length evs6 = length (wipe_steps_before s d)"
    by (metis length_map)
  have bs: "fst r = fetched_boosts env (h @ evs6) s"
    unfolding r_def by (simp add: fst_wipe_fetch_boosts evs6(1))
  have e7: "extends st6 [(GetStatusBoosts (Status_ID s), Some ''error fetching status boosts: %w'')] (snd r)"
    unfolding r_def by (rule extends_fetch)
  have e11: "extends (snd r) (wipe_steps_after s (fst r)) st11"
    unfolding st11_def by (rule extends_wipe_after)
  from extends_trans [OF e7 e11] obtain evs' where evs': "ws_trace st11 = ws_trace st6 @ evs'"
    unfolding extends_def by blast
  from extends_trans [OF e6 extends_trans [OF e7 e11]]
  have "extends \<lparr>ws_trace = h, ws_errs = []\<rparr> (wipe_steps s d (fst r)) st11"
    by (simp add: wipe_steps_def)
  then obtain evs where evs: "ws_trace st11 = h @ evs"
    "map fst evs = map fst (wipe_steps s d (fst r))"
    "ws_errs st11 = reported (wipe_steps s d (fst r)) evs"
    unfolding extends_def by auto
  from evs(1) evs' evs6(1) have "evs = evs6 @ evs'"
    by simp
  with len6 have "take (length (wipe_steps_before s d)) evs = evs6"
    by simp
  with bs have "fst r = fetched_boosts env (h @ take (length (wipe_steps_before s d)) evs) s"
    by simp
  with evs run show ?thesis
    by (intro exI [of _ evs]) simp
qed

lemma wipeStatus_trace:
  "fst (wipeStatus env h s d) = h @ wipe_events env h s d \<and>
   map fst (wipe_events env h s d) = map fst (wipe_steps s d (wipe_boosts env h s d)) \<and>
   snd (wipeStatus env h s d) =
     Combine (reported (wipe_steps s d (wipe_boosts env h s d)) (wipe_events env h s d))"
proof -
  from wipeStatus_run [of env h s d] obtain evs where evs:
    "fst (wipeStatus env h s d) = h @ evs"
    "map fst evs = map fst (wipe_steps s d
       (fetched_boosts env (h @ take (length (wipe_steps_before s d)) evs) s))"
    "snd (wipeStatus env h s d) = Combine (reported (wipe_steps s d
       (fetched_boosts env (h @ take (length (wipe_steps_before s d)) evs) s)) evs)"
    by blast
  have a: "wipe_events env h s d = evs"
    by (simp add: wipe_events_def evs(1))
  have b: "wipe_boosts env h s d =
      fetched_boosts env (h @ take (length (wipe_steps_before s d)) evs) s"
    by (simp add: wipe_boosts_def evs(1))
  from evs show ?thesis
    by (simp only: a b)
qed

lemma reported_Nil_iff:
  "length steps = length evs \<Longrightarrow>
   (reported steps evs = []) = list_all2 (\<lambda>step ev. snd step = None \<or> snd ev = None) steps evs"
proof (induction steps evs rule: list_induct2)
  case Nil
  show ?case by (simp add: reported_def)
next
  case (Cons step steps ev evs)
  have "reported (step # steps) (ev # evs) = reported1 step ev @ reported steps evs"
    by (simp add: reported_def)
  moreover have "(reported1 step ev = []) = (snd step = None \<or> snd ev = None)"
    by (simp add: reported1_def split: option.splits)
  ultimately show ?case
    using Cons.IH by simp
qed

text \<open>
  Claim C3. Whatever the collaborators answer (any pattern of failures, which may
  depend on the history), a run of \<open>wipeStatus\<close> keeps the history it was given
  and appends exactly the calls of \<open>wipe_steps\<close>, in that order: every attachment
  (deleted or unattached), every mention, the notifications, bookmarks and faves, the
  poll cleanup when there is a poll, the fetch of the boosts, the two deletions of
  every boost that was fetched, the timelines, the conversations and the status
  itself. No failure of an earlier step removes a later one.
\<close>

theorem wipeStatus_attempts_every_step:
  "take (length h) (fst (wipeStatus env h s d)) = h \<and>
   map fst (wipe_events env h s d) = map fst (wipe_steps s d (wipe_boosts env h s d))"
  using wipeStatus_trace [of env h s d] by simp

text \<open>
  Claim C4. \<open>wipeStatus\<close> returns \<open>nil\<close> exactly when no reported step of the
  run failed, that is when nothing was appended to the aggregator; otherwise it
  returns the one combined error that lists, in order, every failure of the run under
  the annotation of its step.
\<close>

theorem wipeStatus_returns_combined:
  "(snd (wipeStatus env h s d) = None) =
      list_all2 (\<lambda>step ev. snd step = None \<or> snd ev = None)
        (wipe_steps s d (wipe_boosts env h s d)) (wipe_events env h s d) \<and>
   snd (wipeStatus env h s d) =
     (if reported (wipe_steps s d (wipe_boosts env h s d)) (wipe_events env h s d) = []
      then None
      else Some (MultiErr
        (reported (wipe_steps s d (wipe_boosts env h s d)) (wipe_events env h s d))))"
proof -
  let ?steps = "wipe_steps s d (wipe_boosts env h s d)"
  let ?evs = "wipe_events env h s d"
  from wipeStatus_trace [of env h s d]
  have calls: "map fst ?evs = map fst ?steps"
    and res: "snd (wipeStatus env h s d) = Combine (reported ?steps ?evs)"
    by simp_all
  from calls have "length ?steps = length ?evs"
    by (metis length_map)
  then have "(reported ?steps ?evs = []) =
      list_all2 (\<lambda>step ev. snd step = None \<or> snd ev = None) ?steps ?evs"
    by (rule reported_Nil_iff)
  with res show ?thesis
    by (simp add: Combine_def)
qed

lemma attempt_cancel: "attempt (env\<lparr>scheduler_Cancel := cancel\<rparr>) = attempt env"
  by (intro ext) (simp add: attempt_def)

lemma wipe_poll_cancel: "wipe_poll (env\<lparr>scheduler_Cancel := cancel\<rparr>) = wipe_poll env"
  by (intro ext) (simp add: wipe_poll_def attempt_cancel)

lemma wipe_boost_cancel: "wipe_boost (env\<lparr>scheduler_Cancel := cancel\<rparr>) = wipe_boost env"
  by (intro ext) (simp add: wipe_boost_def attempt_cancel)

lemma wipe_fetch_boosts_cancel:
  "wipe_fetch_boosts (env\<lparr>scheduler_Cancel := cancel\<rparr>) = wipe_fetch_boosts env"
  by (intro ext) (simp add: wipe_fetch_boosts_def)

lemma poll_calls_of_steps:
  "filter is_poll_call (map fst (wipe_steps s d bs)) =
     (if Status_PollID s \<noteq> []
      then [DeletePollByID (Status_PollID s), DeletePollVotes (Status_PollID s),
            SchedulerCancel (Status_PollID s)]
      else [])"
  by (simp add: wipe_steps_def wipe_steps_before_def wipe_steps_after_def filter_map o_def
      filter_concat)

text \<open>
  Claim C7. The poll cleanup (delete the poll, delete its votes, cancel the expiry
  task) is in the run exactly when the poll identifier of the status is not empty,
  once and with that identifier; and whatever \<open>Scheduler.Cancel\<close> returns, the run
  and the error it returns are the same.
\<close>

theorem wipeStatus_poll_cleanup:
  "filter is_poll_call (map fst (wipe_events env h s d)) =
     (if Status_PollID s \<noteq> []
      then [DeletePollByID (Status_PollID s), DeletePollVotes (Status_PollID s),
            SchedulerCancel (Status_PollID s)]
      else []) \<and>
   wipeStatus (env\<lparr>scheduler_Cancel := cancel\<rparr>) h s d = wipeStatus env h s d"
proof -
  have "map fst (wipe_events env h s d) = map fst (wipe_steps s d (wipe_boosts env h s d))"
    using wipeStatus_trace [of env h s d] by simp
  moreover have "wipeStatus (env\<lparr>scheduler_Cancel := cancel\<rparr>) h s d = wipeStatus env h s d"
    by (simp only: wipeStatus_def attempt_cancel wipe_poll_cancel wipe_boost_cancel
        wipe_fetch_boosts_cancel)
  ultimately show ?thesis
    by (simp only: poll_calls_of_steps)
qed

subsection \<open>The deletion cascade on the sample inputs\<close>

lemma wipeStatus_flaky:
  "wipeStatus flaky [] sample_status True =
     ([(MediaDelete ''01ATT1'', Some (ErrOther ''storage: permission denied'')),
       (MediaDelete ''01ATT2'', None),
       (DeleteMentionByID ''01MEN1'', None),
       (DeleteNotificationsForStatus ''01HZX3'', None),
       (DeleteStatusBookmarksForStatus ''01HZX3'', None),
       (DeleteStatusFavesForStatus ''01HZX3'', None),
       (DeletePollByID ''01POLL'', None),
       (DeletePollVotes ''01POLL'', None),
       (SchedulerCancel ''01POLL'', None),
       (GetStatusBoosts ''01HZX3'', None),
       (DeleteStatusFromTimelines ''01BOOS'', None),
       (DeleteStatusByID ''01BOOS'', Some ErrNoEntries),
       (DeleteStatusFromTimelines ''01HZX3'', None),
       (DeleteStatusFromConversations ''01HZX3'', None),
       (DeleteStatusByID ''01HZX3'', None)],
      Some (MultiErr
        [Wrapped ''error deleting media: %w'' (ErrOther ''storage: permission denied''),
         Wrapped ''error deleting boost: %w'' ErrNoEntries]))"
  by (simp add: wipeStatus_def attempt_def wipe_poll_def wipe_fetch_boosts_def wipe_boost_def
      Appendf_def Combine_def flaky_def calm_def sample_status_def pending_boost_def Let_def)

lemma wipe_boosts_flaky: "wipe_boosts flaky h sample_status d = [pending_boost]"
  by (simp add: wipe_boosts_def fetched_boosts_def flaky_def)

theorem wipeStatus_attempts_every_step_witness:
  "map fst (wipe_events flaky [] sample_status True) =
     [MediaDelete ''01ATT1'', MediaDelete ''01ATT2'', DeleteMentionByID ''01MEN1'',
      DeleteNotificationsForStatus ''01HZX3'', DeleteStatusBookmarksForStatus ''01HZX3'',
      DeleteStatusFavesForStatus ''01HZX3'', DeletePollByID ''01POLL'', DeletePollVotes ''01POLL'',
      SchedulerCancel ''01POLL'', GetStatusBoosts ''01HZX3'',
      DeleteStatusFromTimelines ''01BOOS'', DeleteStatusByID ''01BOOS'',
      DeleteStatusFromTimelines ''01HZX3'', DeleteStatusFromConversations ''01HZX3'',
      DeleteStatusByID ''01HZX3'']"
proof -
  have "map fst (wipe_steps sample_status True [pending_boost]) =
     [MediaDelete ''01ATT1'', MediaDelete ''01ATT2'', DeleteMentionByID ''01MEN1'',
      DeleteNotificationsForStatus ''01HZX3'', DeleteStatusBookmarksForStatus ''01HZX3'',
      DeleteStatusFavesForStatus ''01HZX3'', DeletePollByID ''01POLL'', DeletePollVotes ''01POLL'',
      SchedulerCancel ''01POLL'', GetStatusBoosts ''01HZX3'',
      DeleteStatusFromTimelines ''01BOOS'', DeleteStatusByID ''01BOOS'',
      DeleteStatusFromTimelines ''01HZX3'', DeleteStatusFromConversations ''01HZX3'',
      DeleteStatusByID ''01HZX3'']"
    by (simp add: wipe_steps_def wipe_steps_before_def wipe_steps_after_def sample_status_def
        pending_boost_def)
  with wipeStatus_attempts_every_step [of "[]" flaky sample_status True]
  show ?thesis
    by (simp only: wipe_boosts_flaky)
qed

theorem wipeStatus_returns_combined_witness:
  "snd (wipeStatus flaky [] sample_status True) =
     Some (MultiErr
        [Wrapped ''error deleting media: %w'' (ErrOther ''storage: permission denied''),
         Wrapped ''error deleting boost: %w'' ErrNoEntries])"
proof -
  have evs: "wipe_events flaky [] sample_status True = fst (wipeStatus flaky [] sample_status True)"
    by (simp add: wipe_events_def)
  have steps: "wipe_steps sample_status True [pending_boost] =
     [(MediaDelete ''01ATT1'', Some ''error deleting media: %w''),
      (MediaDelete ''01ATT2'', Some ''error deleting media: %w''),
      (DeleteMentionByID ''01MEN1'', Some ''error deleting status mention: %w''),
      (DeleteNotificationsForStatus ''01HZX3'', Some ''error deleting status notifications: %w''),
      (DeleteStatusBookmarksForStatus ''01HZX3'', Some ''error deleting status bookmarks: %w''),
      (DeleteStatusFavesForStatus ''01HZX3'', Some ''error deleting status faves: %w''),
      (DeletePollByID ''01POLL'', Some ''error deleting status poll: %w''),
      (DeletePollVotes ''01POLL'', Some ''error deleting status poll votes: %w''),
      (SchedulerCancel ''01POLL'', None),
      (GetStatusBoosts ''01HZX3'', Some ''error fetching status boosts: %w''),
      (DeleteStatusFromTimelines ''01BOOS'', Some ''error deleting boost from timelines: %w''),
      (DeleteStatusByID ''01BOOS'', Some ''error deleting boost: %w''),
      (DeleteStatusFromTimelines ''01HZX3'', Some ''error deleting status from timelines: %w''),
      (DeleteStatusFromConversations ''01HZX3'', Some ''error deleting status from conversations: %w''),
      (DeleteStatusByID ''01HZX3'', Some ''error deleting status: %w'')]"
    by (simp add: wipe_steps_def wipe_steps_before_def wipe_steps_after_def sample_status_def
        pending_boost_def)
  have "reported (wipe_steps sample_status True [pending_boost])
          (wipe_events flaky [] sample_status True) =
        [Wrapped ''error deleting media: %w'' (ErrOther ''storage: permission denied''),
         Wrapped ''error deleting boost: %w'' ErrNoEntries]"
    unfolding evs steps wipeStatus_flaky
    by (simp add: reported_def reported1_def)
  with wipeStatus_returns_combined [of flaky "[]" sample_status True, THEN conjunct2]
  show ?thesis
    by (simp only: wipe_boosts_flaky) simp
qed

theorem wipeStatus_poll_cleanup_witness:
  "filter is_poll_call (map fst (wipe_events flaky [] sample_status True)) =
     [DeletePollByID ''01POLL'', DeletePollVotes ''01POLL'', SchedulerCancel ''01POLL''] \<and>
   wipeStatus (flaky\<lparr>scheduler_Cancel := (\<lambda>h taskID. False)\<rparr>) [] sample_status True
     = wipeStatus flaky [] sample_status True"
  using wipeStatus_poll_cleanup [of flaky "[]" sample_status True "\<lambda>h taskID. False"]
  by (simp add: sample_status_def)

section \<open>Properties of the follower migration\<close>

lemma redirect_remove_events:
  assumes "is_FollowRemove remove"
  shows "\<exists>ev. redirect_remove env remove h = (h @ [ev], \<not> fatal ev) \<and> is_FollowRemove (fst ev)"
proof (cases "respond env h remove")
  case None
  with assms show ?thesis
    by (intro exI [of _ "(remove, None)"]) (simp add: redirect_remove_def)
next
  case (Some err)
  with assms show ?thesis
    by (intro exI [of _ "(remove, Some err)"])
       (cases remove; simp add: redirect_remove_def)
qed

lemma redirect_follower_events:
  "\<exists>evs ev. redirect_follower env targetAcct follow h = (h @ evs @ [ev], \<not> fatal ev) \<and>
     \<not> list_ex fatal evs \<and>
     (\<not> fatal ev \<longrightarrow> length (filter is_FollowRemove (map fst (evs @ [ev]))) = 1)"
proof (cases "db_GetAccountByID env h (Follow_AccountID follow)")
  case (Inl err)
  then show ?thesis
    by (intro exI [of _ "[]"] exI [of _ "(GetAccountByID (Follow_AccountID follow), Some err)"])
       (simp add: redirect_follower_def)
next
  case (Inr account)
  let ?get = "(GetAccountByID (Follow_AccountID follow), None)"
  let ?create = "FollowCreate account
                  \<lparr>Request_ID = Account_ID targetAcct,
                   Request_Reblogs = Follow_ShowReblogs follow,
                   Request_Notify = Follow_Notify follow\<rparr>"
  let ?remove = "FollowRemove account (Follow_TargetAccountID follow)"
  show ?thesis
  proof (cases "Follow_AccountID follow \<noteq> Account_ID targetAcct")
    case False
    from redirect_remove_events [of ?remove env "h @ [?get]"]
    obtain ev where ev: "redirect_remove env ?remove (h @ [?get]) = ((h @ [?get]) @ [ev], \<not> fatal ev)"
      "is_FollowRemove (fst ev)"
      by auto
    with Inr False show ?thesis
      by (intro exI [of _ "[?get]"] exI [of _ ev]) (simp add: redirect_follower_def)
  next
    case True
    show ?thesis
    proof (cases "respond env (h @ [?get]) ?create")
      case (Some err)
      with Inr True show ?thesis
        by (intro exI [of _ "[?get]"] exI [of _ "(?create, Some err)"])
           (simp add: redirect_follower_def)
    next
      case None
      from redirect_remove_events [of ?remove env "(h @ [?get]) @ [(?create, None)]"]
      obtain ev where ev: "redirect_remove env ?remove ((h @ [?get]) @ [(?create, None)])
            = (((h @ [?get]) @ [(?create, None)]) @ [ev], \<not> fatal ev)"
        "is_FollowRemove (fst ev)"
        by auto
      with Inr True None show ?thesis
        by (intro exI [of _ "[?get, (?create, None)]"] exI [of _ ev])
           (simp add: redirect_follower_def)
    qed
  qed
qed

lemma redirect_loop_events:
  "\<exists>evs. redirect_loop env targetAcct followers h = (h @ evs, \<not> list_ex fatal evs) \<and>
     \<not> list_ex fatal (butlast evs) \<and>
     (\<not> list_ex fatal evs \<longrightarrow>
        length (filter is_FollowRemove (map fst evs)) = length followers)"
proof (induction followers arbitrary: h)
  case Nil
  show ?case by simp
next
  case (Cons follow followers)
  from redirect_follower_events [of env targetAcct follow h]
  obtain evs ev where body: "redirect_follower env targetAcct follow h = (h @ evs @ [ev], \<not> fatal ev)"
    "\<not> list_ex fatal evs"
    "\<not> fatal ev \<longrightarrow> length (filter is_FollowRemove (map fst (evs @ [ev]))) = 1"
    by blast
  show ?case
  proof (cases "fatal ev")
    case True
    with body show ?thesis
      by (intro exI [of _ "evs @ [ev]"]) simp
  next
    case False
    from Cons.IH [of "h @ evs @ [ev]"]
    obtain evs' where rest: "redirect_loop env targetAcct followers (h @ evs @ [ev])
          = ((h @ evs @ [ev]) @ evs', \<not> list_ex fatal evs')"
      "\<not> list_ex fatal (butlast evs')"
      "\<not> list_ex fatal evs' \<longrightarrow>
        length (filter is_FollowRemove (map fst evs')) = length followers"
      by blast
    have "\<not> list_ex fatal (butlast ((evs @ [ev]) @ evs'))"
      using body(2) False rest(2) by (simp add: butlast_append)
    moreover have "redirect_loop env targetAcct (follow # followers) h
        = (h @ ((evs @ [ev]) @ evs'), \<not> list_ex fatal ((evs @ [ev]) @ evs'))"
      using body(1,2) False rest(1) by simp
    moreover have "\<not> list_ex fatal ((evs @ [ev]) @ evs') \<longrightarrow>
        length (filter is_FollowRemove (map fst ((evs @ [ev]) @ evs'))) = length (follow # followers)"
    proof
      assume "\<not> list_ex fatal ((evs @ [ev]) @ evs')"
      then have "\<not> list_ex fatal evs'"
        by simp
      with rest(3) have a: "length (filter is_FollowRemove (map fst evs')) = length followers"
        by blast
      from body(3) False have b: "length (filter is_FollowRemove (map fst (evs @ [ev]))) = 1"
        by blast
      have "length (filter is_FollowRemove (map fst ((evs @ [ev]) @ evs')))
          = length (filter is_FollowRemove (map fst (evs @ [ev])))
            + length (filter is_FollowRemove (map fst evs'))"
        by simp
      then show "length (filter is_FollowRemove (map fst ((evs @ [ev]) @ evs')))
          = length (follow # followers)"
        by (simp only: a b) simp
    qed
    ultimately show ?thesis
      by blast
  qed
qed


lemma redirect_loop_append:
  "redirect_loop env targetAcct pre h = (h', True) \<Longrightarrow>
   redirect_loop env targetAcct (pre @ followers) h = redirect_loop env targetAcct followers h'"
proof (induction pre arbitrary: h)
  case Nil
  then show ?case by simp
next
  case (Cons follow pre)
  then show ?case
    by (cases "redirect_follower env targetAcct follow h") (auto split: bool.splits)
qed

lemma redirect_loop_extends:
  "\<exists>evs. fst (redirect_loop env targetAcct followers h) = h @ evs"
  using redirect_loop_events [of env targetAcct followers h] by auto

lemma redirect_follower_self:
  assumes "Follow_AccountID follow = Account_ID targetAcct"
  shows "fst (redirect_follower env targetAcct follow h) = h @ retract_only env follow h"
  using assms
  by (cases "db_GetAccountByID env h (Follow_AccountID follow)")
     (simp_all add: redirect_follower_def retract_only_def redirect_remove_def Let_def
        split: option.splits)

text \<open>
  Claim C6. Let a follower of the origin account be the migration target itself, at
  any place in the list of followers, and let the run reach it (the followers before
  it were processed without failure, leaving the history \<open>h'\<close>). Then the run
  goes on from \<open>h'\<close> with exactly the events of \<open>retract_only\<close>: the account is
  resolved and the old follow of the origin is retracted, with no \<open>FollowCreate\<close>
  in between.
\<close>

theorem redirectFollowers_no_self_follow:
  assumes "db_GetAccountLocalFollowers env h (Account_ID originAcct) = Inr (pre @ follow # post)"
    and "Follow_AccountID follow = Account_ID targetAcct"
    and "redirect_loop env targetAcct pre
           (h @ [(GetAccountLocalFollowers (Account_ID originAcct), None)]) = (h', True)"
  shows "take (length h' + length (retract_only env follow h'))
           (fst (redirectFollowers env h originAcct targetAcct))
         = h' @ retract_only env follow h'"
proof -
  from redirect_follower_self [OF assms(2), of env h']
  obtain ok where body: "redirect_follower env targetAcct follow h'
      = (h' @ retract_only env follow h', ok)"
    by (cases "redirect_follower env targetAcct follow h'") simp
  from redirect_loop_extends [of env targetAcct post "h' @ retract_only env follow h'"]
  obtain evs where rest: "fst (redirect_loop env targetAcct post (h' @ retract_only env follow h'))
      = (h' @ retract_only env follow h') @ evs"
    by blast
  have "fst (redirect_loop env targetAcct (follow # post) h')
      = (h' @ retract_only env follow h') @ (if ok then evs else [])"
    using body rest by (cases ok) simp_all
  moreover have "redirectFollowers env h originAcct targetAcct
      = redirect_loop env targetAcct (follow # post) h'"
    using assms(1) redirect_loop_append [OF assms(3)] by (simp add: redirectFollowers_def)
  ultimately show ?thesis
    by simp
qed


subsection \<open>The follower migration on the sample inputs\<close>




theorem redirectFollowers_no_self_follow_witness:
  "take 6 (fst (redirectFollowers moving [] (sample_account ''alice'') (sample_account ''bob''))) =
     [(GetAccountLocalFollowers ''alice'', None),
      (GetAccountByID ''carol'', None),
      (FollowCreate (sample_account ''carol'')
         \<lparr>Request_ID = ''bob'', Request_Reblogs = Some True, Request_Notify = Some False\<rparr>, None),
      (FollowRemove (sample_account ''carol'') ''alice'', None),
      (GetAccountByID ''bob'', None),
      (FollowRemove (sample_account ''bob'') ''alice'', None)]"
proof -
  let ?h' = "[(GetAccountLocalFollowers ''alice'', None),
      (GetAccountByID ''carol'', None),
      (FollowCreate (sample_account ''carol'')
         \<lparr>Request_ID = ''bob'', Request_Reblogs = Some True, Request_Notify = Some False\<rparr>, None),
      (FollowRemove (sample_account ''carol'') ''alice'', None)]"
  have 1: "db_GetAccountLocalFollowers moving [] (Account_ID (sample_account ''alice''))
      = Inr ([sample_follow ''carol'' ''alice''] @ sample_follow ''bob'' ''alice''
             # [sample_follow ''dave'' ''alice''])"
    by (simp add: moving_def calm_def sample_account_def)
  have 2: "Follow_AccountID (sample_follow ''bob'' ''alice'') = Account_ID (sample_account ''bob'')"
    by (simp add: sample_follow_def sample_account_def)
  have 3: "redirect_loop moving (sample_account ''bob'') [sample_follow ''carol'' ''alice'']
      ([] @ [(GetAccountLocalFollowers (Account_ID (sample_account ''alice'')), None)]) = (?h', True)"
    by (simp add: redirect_follower_def redirect_remove_def moving_def
      calm_def sample_account_def sample_follow_def)
  have 4: "retract_only moving (sample_follow ''bob'' ''alice'') ?h' =
      [(GetAccountByID ''bob'', None), (FollowRemove (sample_account ''bob'') ''alice'', None)]"
    by (simp add: retract_only_def moving_def calm_def sample_follow_def)
  from redirectFollowers_no_self_follow [OF 1 2 3] show ?thesis
    by (simp only: 4) (simp add: eval_nat_numeral)
qed


section \<open>Properties of the counter functions\<close>

lemma clamped_nonneg: "0 \<le>s clamped n"
  by (simp add: clamped_def signed.not_less)

lemma clamped_of_nonneg:
  assumes "0 \<le>s n"
  shows "clamped n = (if n = 0 then 0 else n - 1)"
proof (cases "n = 0")
  case True
  then show ?thesis
    by (simp add: clamped_def word_sless_alt)
next
  case False
  from assms have "0 \<le> sint n"
    by (simp add: word_sle_eq)
  moreover from False have "sint n \<noteq> 0"
    by (simp add: signed_eq_0_iff)
  ultimately have pos: "1 \<le> sint n"
    by simp
  have "sint n < 2 ^ (LENGTH(64) - 1)"
    by (rule sint_lt)
  with pos have "sint (n - 1) = sint n - 1"
    by (simp add: sint_word_ariths signed_take_bit_int_eq_self)
  with pos have "\<not> (n - 1 <s 0)"
    by (simp add: word_sless_alt)
  with False show ?thesis
    by (simp add: clamped_def)
qed

lemma update_stats_run:
  "update_stats env (h @ [(PopulateAccountStats account, None)]) account1 stats columns
     = counter_run env h account account1 stats columns"
  by (simp add: update_stats_def counter_run_def Let_def split: option.splits)

lemma decrement_run:
  assumes "db_PopulateAccountStats env h account = Inr account1"
    and "Account_Stats account1 = Some stats"
    and "counter_get k stats = Some n"
  shows "decrement k env h account
         = counter_run env h account account1 (counter_set k (clamped n) stats) [counter_column k]"
proof (cases k)
  case StatusesCounter
  with assms show ?thesis
    by (simp add: decrementStatusesCount_def update_stats_run clamped_def Let_def)
next
  case FollowersCounter
  with assms show ?thesis
    by (simp add: decrementFollowersCount_def update_stats_run clamped_def Let_def)
next
  case FollowingCounter
  with assms show ?thesis
    by (simp add: decrementFollowingCount_def update_stats_run clamped_def Let_def)
next
  case FollowRequestsCounter
  with assms show ?thesis
    by (simp add: decrementFollowRequestsCount_def update_stats_run clamped_def Let_def)
qed

lemma increment_run:
  assumes "db_PopulateAccountStats env h account = Inr account1"
    and "Account_Stats account1 = Some stats"
    and "counter_get k stats = Some n"
  shows "increment k env h account status
         = counter_run env h account account1 (incremented k n status stats) (increment_columns k)"
proof (cases k)
  case StatusesCounter
  with assms show ?thesis
    by (simp add: incrementStatusesCount_def update_stats_run incremented_def
        increment_columns_def Let_def)
next
  case FollowersCounter
  with assms show ?thesis
    by (simp add: incrementFollowersCount_def update_stats_run incremented_def
        increment_columns_def Let_def)
next
  case FollowingCounter
  with assms show ?thesis
    by (simp add: incrementFollowingCount_def update_stats_run incremented_def
        increment_columns_def Let_def)
next
  case FollowRequestsCounter
  with assms show ?thesis
    by (simp add: incrementFollowRequestsCount_def update_stats_run incremented_def
        increment_columns_def Let_def)
qed

lemma decrement_populate_failed:
  assumes "db_PopulateAccountStats env h account = Inl err"
  shows "fst (decrement k env h account) = h @ [(PopulateAccountStats account, Some err)]"
  using assms
  by (cases k)
     (simp_all add: decrementStatusesCount_def decrementFollowersCount_def
        decrementFollowingCount_def decrementFollowRequestsCount_def)

lemma decrement_panics:
  assumes "db_PopulateAccountStats env h account = Inr account1"
    and "Account_Stats account1 = None
         \<or> (\<exists>stats. Account_Stats account1 = Some stats \<and> counter_get k stats = None)"
  shows "fst (decrement k env h account) = h @ [(PopulateAccountStats account, None)]"
  using assms
  by (cases k)
     (auto simp: decrementStatusesCount_def decrementFollowersCount_def
        decrementFollowingCount_def decrementFollowRequestsCount_def)

lemma writes_nonneg_clamped:
  "writes_nonneg (UpdateAccountStats (counter_set k (clamped n) stats) [counter_column k], r)"
  by (cases k) (simp_all add: clamped_nonneg)

lemma decrement_writes:
  "\<exists>evs. fst (decrement k env h account) = h @ evs \<and> list_all writes_nonneg evs"
proof (cases "db_PopulateAccountStats env h account")
  case (Inl err)
  from decrement_populate_failed [OF this, of k] show ?thesis
    by simp
next
  case (Inr account1)
  show ?thesis
  proof (cases "\<exists>stats n. Account_Stats account1 = Some stats \<and> counter_get k stats = Some n")
    case True
    then obtain stats n where "Account_Stats account1 = Some stats" "counter_get k stats = Some n"
      by blast
    from decrement_run [OF Inr this]
    have "fst (decrement k env h account) = h @ [(PopulateAccountStats account, None),
           (UpdateAccountStats (counter_set k (clamped n) stats) [counter_column k],
            respond env (h @ [(PopulateAccountStats account, None)])
              (UpdateAccountStats (counter_set k (clamped n) stats) [counter_column k]))]"
      by (simp add: counter_run_def)
    moreover have "list_all writes_nonneg [(PopulateAccountStats account, None),
           (UpdateAccountStats (counter_set k (clamped n) stats) [counter_column k],
            respond env (h @ [(PopulateAccountStats account, None)])
              (UpdateAccountStats (counter_set k (clamped n) stats) [counter_column k]))]"
      using writes_nonneg_clamped [of k n stats] by (simp del: writes_nonneg.simps(1))
    ultimately show ?thesis
      by blast
  next
    case False
    then have "Account_Stats account1 = None
         \<or> (\<exists>stats. Account_Stats account1 = Some stats \<and> counter_get k stats = None)"
      by (cases "Account_Stats account1") auto
    from decrement_panics [OF Inr this] show ?thesis
      by simp
  qed
qed

lemma decrements_writes:
  "\<exists>evs. decrements env ks h account = h @ evs \<and> list_all writes_nonneg evs"
proof (induction ks arbitrary: h account)
  case Nil
  show ?case by simp
next
  case (Cons k ks)
  obtain h' account' res where run: "decrement k env h account = (h', account', res)"
    by (cases "decrement k env h account") auto
  with decrement_writes [of k env h account]
  obtain evs where evs: "h' = h @ evs" "list_all writes_nonneg evs"
    by auto
  show ?case
  proof (cases res)
    case Panic
    with run evs show ?thesis by simp
  next
    case (Return r)
    from Cons.IH [of h' account']
    obtain evs' where "decrements env ks h' account' = h' @ evs'" "list_all writes_nonneg evs'"
      by blast
    with run evs Return show ?thesis
      by (intro exI [of _ "evs @ evs'"]) simp
  qed
qed

text \<open>
  Claim C2. When a decrement function finds the statistics populated and its counter
  set to a value \<open>n\<close> that is not negative, it stores \<open>n - 1\<close>, or exactly zero
  when that would be below zero (that is, when \<open>n\<close> is zero); the stored value is
  not negative. And in any sequence of decrement calls, from any history and any
  account, every value that is written for a counter is not negative.
\<close>

theorem decrement_never_negative:
  assumes "db_PopulateAccountStats env h account = Inr account1"
    and "Account_Stats account1 = Some stats"
    and "counter_get k stats = Some n"
    and "0 \<le>s n"
  shows "decrement k env h account
           = counter_run env h account account1
               (counter_set k (if n = 0 then 0 else n - 1) stats) [counter_column k] \<and>
         0 \<le>s (if n = 0 then 0 else n - 1) \<and>
         list_all writes_nonneg (drop (length h') (decrements env ks h' account'))"
proof -
  from assms(4) have c: "clamped n = (if n = 0 then 0 else n - 1)"
    by (rule clamped_of_nonneg)
  from decrement_run [OF assms(1-3)]
  have "decrement k env h account
           = counter_run env h account account1
               (counter_set k (if n = 0 then 0 else n - 1) stats) [counter_column k]"
    by (simp only: c)
  moreover from clamped_nonneg [of n] have "0 \<le>s (if n = 0 then 0 else n - 1)"
    by (simp only: c)
  moreover from decrements_writes [of env ks h' account']
  have "list_all writes_nonneg (drop (length h') (decrements env ks h' account'))"
    by auto
  ultimately show ?thesis
    by blast
qed

lemma write_incremented:
  "write_stats_columns (increment_columns k) (incremented k n status stats) row
     = incremented k n status row"
  by (cases k) (simp_all add: write_stats_columns_def increment_columns_def incremented_def)

lemma write_decremented:
  "write_stats_columns [counter_column k] (counter_set k v stats) row = counter_set k v row"
  by (cases k) (simp_all add: write_stats_columns_def)

text \<open>
  Claim C9. When a counter function finds the statistics populated and its counter
  set to \<open>n\<close>: an increment stores the statistics with that one counter raised by
  one (and, for the statuses counter only, the time of the last status set to the
  creation time of the status) and names exactly the column of the counter (for the
  statuses counter, also the column of the time); a decrement stores the statistics
  with that one counter lowered and clamped and names exactly its column. Every other
  field of the statistics is as the populate call left it, and the partial update of
  the stored row writes the named fields and no other.
\<close>

theorem counters_touch_one_field:
  assumes "db_PopulateAccountStats env h account = Inr account1"
    and "Account_Stats account1 = Some stats"
    and "counter_get k stats = Some n"
  shows "increment k env h account status
           = counter_run env h account account1
               (incremented k n status stats) (increment_columns k) \<and>
         decrement k env h account
           = counter_run env h account account1
               (counter_set k (clamped n) stats) [counter_column k] \<and>
         write_stats_columns (increment_columns k) (incremented k n status stats) row
           = incremented k n status row \<and>
         write_stats_columns [counter_column k] (counter_set k (clamped n) stats) row
           = counter_set k (clamped n) row"
  using increment_run [OF assms] decrement_run [OF assms]
  by (simp only: write_incremented write_decremented)

subsection \<open>The counter functions on the sample inputs\<close>

lemma calm_respond: "respond calm h c = None"
  by (simp add: calm_def)

theorem decrement_never_negative_witness:
  "decrement StatusesCounter calm [] counted_account
     = ([(PopulateAccountStats counted_account, None),
         (UpdateAccountStats (sample_stats\<lparr>Stats_StatusesCount := Some 0\<rparr>) [''statuses_count''],
          None)],
        counted_account\<lparr>Account_Stats := Some (sample_stats\<lparr>Stats_StatusesCount := Some 0\<rparr>)\<rparr>,
        Return None) \<and>
   list_all writes_nonneg
     (decrements calm [StatusesCounter, FollowingCounter, StatusesCounter] [] counted_account)"
proof -
  have 1: "db_PopulateAccountStats calm [] counted_account = Inr counted_account"
    by (simp add: calm_def)
  have 2: "Account_Stats counted_account = Some sample_stats"
    by (simp add: counted_account_def)
  have 3: "counter_get StatusesCounter sample_stats = Some 0"
    by (simp add: sample_stats_def)
  have 4: "(0::go_int) \<le>s 0"
    by simp
  note w = decrement_never_negative [OF 1 2 3 4,
      of "[]" "[StatusesCounter, FollowingCounter, StatusesCounter]" counted_account]
  from w have a: "decrement StatusesCounter calm [] counted_account
      = counter_run calm [] counted_account counted_account
          (counter_set StatusesCounter (if (0::go_int) = 0 then 0 else 0 - 1) sample_stats)
          [counter_column StatusesCounter]"
    by (rule conjunct1)
  from w have b: "list_all writes_nonneg (drop (length ([]::event list))
      (decrements calm [StatusesCounter, FollowingCounter, StatusesCounter] [] counted_account))"
    by (rule conjunct2 [OF conjunct2])
  have c: "counter_run calm [] counted_account counted_account
          (counter_set StatusesCounter (if (0::go_int) = 0 then 0 else 0 - 1) sample_stats)
          [counter_column StatusesCounter]
      = ([(PopulateAccountStats counted_account, None),
         (UpdateAccountStats (sample_stats\<lparr>Stats_StatusesCount := Some 0\<rparr>) [''statuses_count''],
          None)],
        counted_account\<lparr>Account_Stats := Some (sample_stats\<lparr>Stats_StatusesCount := Some 0\<rparr>)\<rparr>,
        Return None)"
    by (simp add: counter_run_def calm_respond)
  from b show ?thesis
    unfolding a c by (simp del: decrement.simps decrements.simps)
qed

theorem counters_touch_one_field_witness:
  "increment StatusesCounter calm [] counted_account sample_status
     = ([(PopulateAccountStats counted_account, None),
         (UpdateAccountStats
            (sample_stats\<lparr>Stats_StatusesCount := Some 1, Stats_LastStatusAt := 1720000000\<rparr>)
            [''statuses_count'', ''last_status_at''], None)],
        counted_account\<lparr>Account_Stats :=
          Some (sample_stats\<lparr>Stats_StatusesCount := Some 1, Stats_LastStatusAt := 1720000000\<rparr>)\<rparr>,
        Return None) \<and>
   decrement StatusesCounter calm [] counted_account
     = ([(PopulateAccountStats counted_account, None),
         (UpdateAccountStats (sample_stats\<lparr>Stats_StatusesCount := Some 0\<rparr>) [''statuses_count''],
          None)],
        counted_account\<lparr>Account_Stats := Some (sample_stats\<lparr>Stats_StatusesCount := Some 0\<rparr>)\<rparr>,
        Return None)"
proof -
  have 1: "db_PopulateAccountStats calm [] counted_account = Inr counted_account"
    by (simp add: calm_def)
  have 2: "Account_Stats counted_account = Some sample_stats"
    by (simp add: counted_account_def)
  have 3: "counter_get StatusesCounter sample_stats = Some 0"
    by (simp add: sample_stats_def)
  have 4: "clamped 0 = 0"
    by (simp add: clamped_def)
  note w = counters_touch_one_field [OF 1 2 3, of sample_status]
  from w have a: "increment StatusesCounter calm [] counted_account sample_status
      = counter_run calm [] counted_account counted_account
          (incremented StatusesCounter 0 sample_status sample_stats)
          (increment_columns StatusesCounter)"
    by (rule conjunct1)
  from w have b: "decrement StatusesCounter calm [] counted_account
      = counter_run calm [] counted_account counted_account
          (counter_set StatusesCounter (clamped 0) sample_stats) [counter_column StatusesCounter]"
    by (rule conjunct1 [OF conjunct2])
  show ?thesis
    unfolding a b
    by (simp add: counter_run_def calm_respond incremented_def increment_columns_def 4
        sample_status_def)
qed

section \<open>Properties of the approval issuer\<close>

lemma approveFave_success:
  assumes "approveFave env h fave = (h', fave', Return (Inr approval))"
  shows "h' = h @ [(PutInteractionApproval approval, None),
                   (UpdateStatusFave fave' [''pending_approval'', ''approved_by_uri''], None)] \<and>
         fave' = fave\<lparr>Fave_PendingApproval := Some False, Fave_PreApproved := False,
                       Fave_ApprovedByURI := Approval_URI approval\<rparr> \<and>
         Approval_InteractionType approval = InteractionLike"
  using assms
  by (auto simp: approveFave_def Let_def split: option.splits)

lemma approveReply_success:
  assumes "approveReply env h status = (h', status', Return (Inr approval))"
  shows "h' = h @ [(PutInteractionApproval approval, None),
                   (UpdateStatus status' [''pending_approval'', ''approved_by_uri''], None)] \<and>
         status' = status\<lparr>Status_PendingApproval := Some False, Status_PreApproved := False,
                           Status_ApprovedByURI := Approval_URI approval\<rparr> \<and>
         Approval_InteractionType approval = InteractionReply"
  using assms
  by (auto simp: approveReply_def Let_def split: option.splits)

lemma approveAnnounce_success:
  assumes "approveAnnounce env h boost = (h', boost', Return (Inr approval))"
  shows "h' = h @ [(PutInteractionApproval approval, None),
                   (UpdateStatus boost' [''pending_approval'', ''approved_by_uri''], None)] \<and>
         boost' = boost\<lparr>Status_PendingApproval := Some False, Status_PreApproved := False,
                         Status_ApprovedByURI := Approval_URI approval\<rparr> \<and>
         Approval_InteractionType approval = InteractionReply"
  using assms
  by (auto simp: approveAnnounce_def Let_def split: option.splits)

lemma approveAnnounce_calm:
  "approveAnnounce calm [] pending_boost =
     ([(PutInteractionApproval (sample_approval InteractionReply (Status_URI pending_boost)), None),
       (UpdateStatus
          (pending_boost\<lparr>Status_PendingApproval := Some False, Status_PreApproved := False, Status_ApprovedByURI := accept_uri\<rparr>)
          [''pending_approval'', ''approved_by_uri''], None)],
      pending_boost\<lparr>Status_PendingApproval := Some False, Status_PreApproved := False, Status_ApprovedByURI := accept_uri\<rparr>,
      Return (Inr (sample_approval InteractionReply (Status_URI pending_boost))))"
  by (simp add: approveAnnounce_def calm_def pending_boost_def sample_account_def sample_approval_def
      accept_uri_def Let_def)

text \<open>
  Claim C1, at a boost. For the boost \<open>pending_boost\<close> and collaborators that all
  succeed, the one approval that \<open>approveAnnounce\<close> puts into the store, which is
  also the approval it returns, carries the kind \<open>InteractionReply\<close>, not
  \<open>InteractionAnnounce\<close>.
\<close>

theorem approveAnnounce_tags_reply:
  "persisted_types (fst (approveAnnounce calm [] pending_boost)) = [InteractionReply] \<and>
   returned_type (snd (snd (approveAnnounce calm [] pending_boost))) = Some InteractionReply \<and>
   InteractionReply \<noteq> InteractionAnnounce"
  by (simp add: approveAnnounce_calm persisted_types_def sample_approval_def)

lemma approveFave_calm:
  "approveFave calm [] pending_fave =
     ([(PutInteractionApproval (sample_approval InteractionLike (Fave_URI pending_fave)), None),
       (UpdateStatusFave
          (pending_fave\<lparr>Fave_PendingApproval := Some False, Fave_PreApproved := False, Fave_ApprovedByURI := accept_uri\<rparr>)
          [''pending_approval'', ''approved_by_uri''], None)],
      pending_fave\<lparr>Fave_PendingApproval := Some False, Fave_PreApproved := False, Fave_ApprovedByURI := accept_uri\<rparr>,
      Return (Inr (sample_approval InteractionLike (Fave_URI pending_fave))))"
  by (simp add: approveFave_def calm_def pending_fave_def sample_account_def sample_approval_def
      accept_uri_def Let_def)

lemma approveReply_calm:
  "approveReply calm [] pending_reply =
     ([(PutInteractionApproval (sample_approval InteractionReply (Status_URI pending_reply)), None),
       (UpdateStatus
          (pending_reply\<lparr>Status_PendingApproval := Some False, Status_PreApproved := False, Status_ApprovedByURI := accept_uri\<rparr>)
          [''pending_approval'', ''approved_by_uri''], None)],
      pending_reply\<lparr>Status_PendingApproval := Some False, Status_PreApproved := False, Status_ApprovedByURI := accept_uri\<rparr>,
      Return (Inr (sample_approval InteractionReply (Status_URI pending_reply))))"
  by (simp add: approveReply_def calm_def pending_reply_def sample_account_def sample_approval_def
      accept_uri_def Let_def)

text \<open>
  Claim C8 as stated fails. The fave \<open>pending_fave\<close> is pre-approved. After
  \<open>approveFave\<close> its pre-approval flag is changed (cleared), but the stored row,
  which held the fave as it was before the call and on which the store then carried
  out the updates of the run, still has the flag set: the changed field is not among
  the persisted ones.
\<close>

theorem approve_persists_every_change_counterexample:
  "Fave_PreApproved (fst (snd (approveFave calm [] pending_fave))) \<noteq> Fave_PreApproved pending_fave \<and>
   Fave_PreApproved (persisted_fave (fst (approveFave calm [] pending_fave)) pending_fave)
     \<noteq> Fave_PreApproved (fst (snd (approveFave calm [] pending_fave))) \<and>
   persisted_fave (fst (approveFave calm [] pending_fave)) pending_fave
     \<noteq> fst (snd (approveFave calm [] pending_fave))"
proof -
  have "persisted_fave (fst (approveFave calm [] pending_fave)) pending_fave
      = pending_fave\<lparr>Fave_PendingApproval := Some False, Fave_ApprovedByURI := accept_uri\<rparr>"
    by (simp add: approveFave_calm persisted_fave_def write_fave_columns_def)
  then have "Fave_PreApproved (persisted_fave (fst (approveFave calm [] pending_fave)) pending_fave)"
    by (simp add: pending_fave_def)
  moreover have "\<not> Fave_PreApproved (fst (snd (approveFave calm [] pending_fave)))"
    by (simp add: approveFave_calm)
  moreover have "Fave_PreApproved pending_fave"
    by (simp add: pending_fave_def)
  ultimately show ?thesis
    by auto
qed

text \<open>
  Claim C8, amended. When an approval function succeeds, it has mutated the subject
  by setting its pending-approval flag to false, clearing its pre-approval flag and
  setting its approving URI to the URI of the new approval, and its one update of the
  subject names exactly the columns \<open>pending_approval\<close> and \<open>approved_by_uri\<close>:
  of a stored row, the partial update writes those two fields and no other. The
  pre-approval flag is cleared in memory only.
\<close>

theorem approve_mutates_and_persists:
  "(approveFave env h fave = (hf, fave', Return (Inr fa)) \<longrightarrow>
      hf = h @ [(PutInteractionApproval fa, None),
                (UpdateStatusFave fave' [''pending_approval'', ''approved_by_uri''], None)] \<and>
      fave' = fave\<lparr>Fave_PendingApproval := Some False, Fave_PreApproved := False,
                    Fave_ApprovedByURI := Approval_URI fa\<rparr> \<and>
      write_fave_columns [''pending_approval'', ''approved_by_uri''] fave' frow
        = frow\<lparr>Fave_PendingApproval := Some False, Fave_ApprovedByURI := Approval_URI fa\<rparr>) \<and>
   (approveReply env h status = (hr, status', Return (Inr ra)) \<longrightarrow>
      hr = h @ [(PutInteractionApproval ra, None),
                (UpdateStatus status' [''pending_approval'', ''approved_by_uri''], None)] \<and>
      status' = status\<lparr>Status_PendingApproval := Some False, Status_PreApproved := False,
                        Status_ApprovedByURI := Approval_URI ra\<rparr> \<and>
      write_status_columns [''pending_approval'', ''approved_by_uri''] status' srow
        = srow\<lparr>Status_PendingApproval := Some False, Status_ApprovedByURI := Approval_URI ra\<rparr>) \<and>
   (approveAnnounce env h boost = (hb, boost', Return (Inr ba)) \<longrightarrow>
      hb = h @ [(PutInteractionApproval ba, None),
                (UpdateStatus boost' [''pending_approval'', ''approved_by_uri''], None)] \<and>
      boost' = boost\<lparr>Status_PendingApproval := Some False, Status_PreApproved := False,
                      Status_ApprovedByURI := Approval_URI ba\<rparr> \<and>
      write_status_columns [''pending_approval'', ''approved_by_uri''] boost' brow
        = brow\<lparr>Status_PendingApproval := Some False, Status_ApprovedByURI := Approval_URI ba\<rparr>)"
proof (intro conjI impI)
  assume run: "approveFave env h fave = (hf, fave', Return (Inr fa))"
  from approveFave_success [OF run]
  show "hf = h @ [(PutInteractionApproval fa, None),
                (UpdateStatusFave fave' [''pending_approval'', ''approved_by_uri''], None)]"
    and "fave' = fave\<lparr>Fave_PendingApproval := Some False, Fave_PreApproved := False,
                    Fave_ApprovedByURI := Approval_URI fa\<rparr>"
    by simp_all
  then show "write_fave_columns [''pending_approval'', ''approved_by_uri''] fave' frow
        = frow\<lparr>Fave_PendingApproval := Some False, Fave_ApprovedByURI := Approval_URI fa\<rparr>"
    by (simp add: write_fave_columns_def)
next
  assume run: "approveReply env h status = (hr, status', Return (Inr ra))"
  from approveReply_success [OF run]
  show "hr = h @ [(PutInteractionApproval ra, None),
                (UpdateStatus status' [''pending_approval'', ''approved_by_uri''], None)]"
    and "status' = status\<lparr>Status_PendingApproval := Some False, Status_PreApproved := False,
                        Status_ApprovedByURI := Approval_URI ra\<rparr>"
    by simp_all
  then show "write_status_columns [''pending_approval'', ''approved_by_uri''] status' srow
        = srow\<lparr>Status_PendingApproval := Some False, Status_ApprovedByURI := Approval_URI ra\<rparr>"
    by (simp add: write_status_columns_def)
next
  assume run: "approveAnnounce env h boost = (hb, boost', Return (Inr ba))"
  from approveAnnounce_success [OF run]
  show "hb = h @ [(PutInteractionApproval ba, None),
                (UpdateStatus boost' [''pending_approval'', ''approved_by_uri''], None)]"
    and "boost' = boost\<lparr>Status_PendingApproval := Some False, Status_PreApproved := False,
                      Status_ApprovedByURI := Approval_URI ba\<rparr>"
    by simp_all
  then show "write_status_columns [''pending_approval'', ''approved_by_uri''] boost' brow
        = brow\<lparr>Status_PendingApproval := Some False, Status_ApprovedByURI := Approval_URI ba\<rparr>"
    by (simp add: write_status_columns_def)
qed

subsection \<open>The approval issuer on the sample inputs\<close>

theorem approve_mutates_and_persists_witness:
  "write_fave_columns [''pending_approval'', ''approved_by_uri'']
      (pending_fave\<lparr>Fave_PendingApproval := Some False, Fave_PreApproved := False,
         Fave_ApprovedByURI := accept_uri\<rparr>) pending_fave
     = pending_fave\<lparr>Fave_PendingApproval := Some False, Fave_ApprovedByURI := accept_uri\<rparr> \<and>
   write_status_columns [''pending_approval'', ''approved_by_uri'']
      (pending_reply\<lparr>Status_PendingApproval := Some False, Status_PreApproved := False,
         Status_ApprovedByURI := accept_uri\<rparr>) pending_reply
     = pending_reply\<lparr>Status_PendingApproval := Some False, Status_ApprovedByURI := accept_uri\<rparr> \<and>
   write_status_columns [''pending_approval'', ''approved_by_uri'']
      (pending_boost\<lparr>Status_PendingApproval := Some False, Status_PreApproved := False,
         Status_ApprovedByURI := accept_uri\<rparr>) pending_boost
     = pending_boost\<lparr>Status_PendingApproval := Some False, Status_ApprovedByURI := accept_uri\<rparr>"
proof -
  have uri: "Approval_URI (sample_approval kind u) = accept_uri" for kind u
    by (simp add: sample_approval_def)
  note w = approve_mutates_and_persists [where env = calm and h = "[]"
      and fave = pending_fave and frow = pending_fave
      and status = pending_reply and srow = pending_reply
      and boost = pending_boost and brow = pending_boost]
  from w [THEN conjunct1, THEN mp, OF approveFave_calm]
  have 1: "write_fave_columns [''pending_approval'', ''approved_by_uri'']
      (pending_fave\<lparr>Fave_PendingApproval := Some False, Fave_PreApproved := False,
         Fave_ApprovedByURI := accept_uri\<rparr>) pending_fave
     = pending_fave\<lparr>Fave_PendingApproval := Some False, Fave_ApprovedByURI := accept_uri\<rparr>"
    by (simp only: uri)
  from w [THEN conjunct2, THEN conjunct1, THEN mp, OF approveReply_calm]
  have 2: "write_status_columns [''pending_approval'', ''approved_by_uri'']
      (pending_reply\<lparr>Status_PendingApproval := Some False, Status_PreApproved := False,
         Status_ApprovedByURI := accept_uri\<rparr>) pending_reply
     = pending_reply\<lparr>Status_PendingApproval := Some False, Status_ApprovedByURI := accept_uri\<rparr>"
    by (simp only: uri)
  from w [THEN conjunct2, THEN conjunct2, THEN mp, OF approveAnnounce_calm]
  have 3: "write_status_columns [''pending_approval'', ''approved_by_uri'']
      (pending_boost\<lparr>Status_PendingApproval := Some False, Status_PreApproved := False,
         Status_ApprovedByURI := accept_uri\<rparr>) pending_boost
     = pending_boost\<lparr>Status_PendingApproval := Some False, Status_ApprovedByURI := accept_uri\<rparr>"
    by (simp only: uri)
  from 1 2 3 show ?thesis
    by (intro conjI)
qed

end
